theory Spec2Isabelle
  imports Complex_Main "HOL-Library.AList" "HOL-Library.Log_Nat"
begin

section \<open>The treasury transfer indexer of \<^verbatim>\<open>src/axieScore.ts\<close>\<close>

text \<open>
  The second module of the source file scans a block range of the Ronin chain for
  \<^verbatim>\<open>Transfer\<close> logs of two tokens, attributes each transfer to a contributor and
  writes one row per log into a table, keeping per-token totals for the run.

  Conventions of the embedding:
  \<^item> a TypeScript \<^verbatim>\<open>number\<close> that holds a block height, an index or a count is a
    double with an integer value, modelled by that \<^typ>\<open>int\<close>. \<^verbatim>\<open>Math.min\<close> and \<^verbatim>\<open><=\<close>
    are exact; \<^verbatim>\<open>+\<close> and \<^verbatim>\<open>-\<close> round the exact result to the nearest double
    (\<open>js_add\<close>, \<open>js_sub\<close> below), which changes it only beyond magnitude \<open>2^53\<close>.
    Positions in an array are \<^typ>\<open>nat\<close> (an array has fewer than \<open>2^32\<close> elements);
  \<^item> a \<^verbatim>\<open>bigint\<close> is an \<^typ>\<open>int\<close>;
  \<^item> an exception is a value: a computation that can throw returns \<open>exn + 'a\<close>, with
    \<open>Inl\<close> the exception;
  \<^item> a loop that can run forever is a \<^theory_text>\<open>partial_function\<close> into \<open>option\<close>:
    \<open>None\<close> means that the loop does not return;
  \<^item> the functions of the \<^verbatim>\<open>ethers\<close> library, the JSON-RPC provider and the faults of
    the database are parameters (the records \<open>lib\<close> and \<open>env\<close> below);
  \<^item> console output and \<^verbatim>\<open>sleep\<close> are not modelled.
\<close>

subsection \<open>Numbers\<close>

text \<open>
  \<open>fround x\<close> is the double nearest to the integer \<open>x\<close>, ties going to the even
  mantissa: an integer of magnitude up to \<open>2^53\<close> is a double; beyond, with \<open>b\<close> the
  number of bits of \<open>\<bar>x\<bar>\<close>, the doubles are the multiples of \<open>2^(b - 53)\<close>. (The largest
  finite double is near \<open>2^1024\<close>; no theorem below leaves the safe integers but the one
  that shows the rounding.) \<open>js_add\<close> and \<open>js_sub\<close> are \<^verbatim>\<open>+\<close> and \<^verbatim>\<open>-\<close> on two such
  numbers.
\<close>

definition fround :: "int \<Rightarrow> int" where
  "fround x =
     (let m = \<bar>x\<bar> in
      if m \<le> 2 ^ 53 then x
      else
        (let u = 2 ^ (nat (bitlen m) - 53);
             q = m div u;
             r = m mod u;
             n = (if 2 * r < u \<or> (2 * r = u \<and> even q) then q else q + 1)
         in sgn x * (n * u)))"

definition js_add :: "int \<Rightarrow> int \<Rightarrow> int" where
  "js_add a b = fround (a + b)"

definition js_sub :: "int \<Rightarrow> int \<Rightarrow> int" where
  "js_sub a b = fround (a - b)"

subsection \<open>Block windows\<close>

record BlockRange =
  fromBlock :: int
  toBlock :: int

text \<open>
  \<^verbatim>\<open>buildRangesForward\<close> (source lines 232-241): the \<^verbatim>\<open>while\<close> loop, with the array
  \<^verbatim>\<open>ranges\<close> as an accumulator (\<^verbatim>\<open>push\<close> appends). The loop never ends when
  \<^verbatim>\<open>start\<close> does not grow: for \<open>blockSpan \<le> 0\<close>, and where \<^verbatim>\<open>end + 1\<close> rounds back to
  \<^verbatim>\<open>end\<close> (it then appends windows until the memory is exhausted).
\<close>

partial_function (option) buildRangesForward_loop ::
  "int \<Rightarrow> int \<Rightarrow> int \<Rightarrow> BlockRange list \<Rightarrow> BlockRange list option" where
  "buildRangesForward_loop start toBlk blockSpan ranges =
     (if start \<le> toBlk then
        (let endBlk = min (js_sub (js_add start blockSpan) 1) toBlk in
         buildRangesForward_loop (js_add endBlk 1) toBlk blockSpan
           (ranges @ [\<lparr>fromBlock = start, toBlock = endBlk\<rparr>]))
      else Some ranges)"

declare buildRangesForward_loop.simps [code]

definition buildRangesForward :: "int \<Rightarrow> int \<Rightarrow> int \<Rightarrow> BlockRange list option" where
  "buildRangesForward fromBlk toBlk blockSpan =
     buildRangesForward_loop fromBlk toBlk blockSpan []"


fun tiles :: "int \<Rightarrow> int \<Rightarrow> int \<Rightarrow> BlockRange list \<Rightarrow> bool" where
  "tiles s t sp [] = (t < s)"
| "tiles s t sp (w # ws) =
     (s \<le> t \<and> fromBlock w = s \<and> toBlock w = min (s + sp - 1) t \<and>
      tiles (toBlock w + 1) t sp ws)"

subsection \<open>Strings, exceptions and the library\<close>

text \<open>
  \<^verbatim>\<open>String.prototype.toLowerCase\<close> on the ASCII letters (addresses and hashes are hex
  strings; a byte outside \<open>A\<close>..\<open>Z\<close> is left as it is), and \<^verbatim>\<open>s.slice(-n)\<close>: the last
  \<open>n\<close> characters, the whole string when it is shorter.
\<close>

definition toLowerCase_char :: "char \<Rightarrow> char" where
  "toLowerCase_char c =
     (let n = (of_char c :: nat) in if 65 \<le> n \<and> n \<le> 90 then char_of (n + 32) else c)"

definition toLowerCase :: "string \<Rightarrow> string" where
  "toLowerCase s = map toLowerCase_char s"

definition slice_last :: "nat \<Rightarrow> string \<Rightarrow> string" where
  "slice_last n s = drop (length s - n) s"

text \<open>\<^verbatim>\<open>bigint.toString()\<close>: the decimal digits, with a minus sign below zero.\<close>

fun digits :: "nat \<Rightarrow> string" where
  "digits n = (if n < 10 then [char_of (48 + n)] else digits (n div 10) @ [char_of (48 + n mod 10)])"

definition toString :: "int \<Rightarrow> string" where
  "toString i = (if i < 0 then CHR ''-'' # digits (nat (- i)) else digits (nat i))"

text \<open>
  What can be thrown: a rejected provider call, a property read on \<^verbatim>\<open>undefined\<close>, an
  error raised by \<^verbatim>\<open>ethers\<close> or by \<^verbatim>\<open>BigInt\<close> on a malformed argument, and a rejected
  database call.
\<close>

datatype exn = ProviderError | TypeError | ArgumentError | DbError

text \<open>
  The functions of \<^verbatim>\<open>ethers\<close> the indexer calls, and the \<^verbatim>\<open>BigInt\<close> constructor on a
  string. They are not code of the repository: the indexer is modelled for any such
  functions. \<^verbatim>\<open>getAddress\<close> and \<^verbatim>\<open>BigInt\<close> throw on malformed input, and
  \<^verbatim>\<open>formatUnits\<close> throws on an amount that does not fit its fixed-point format.
\<close>

record lib =
  getAddress :: "string \<Rightarrow> exn + string"
  formatUnits :: "int \<Rightarrow> nat \<Rightarrow> exn + string"
  ethers_id :: "string \<Rightarrow> string"
  zeroPadValue :: "string \<Rightarrow> nat \<Rightarrow> string"
  BigInt :: "string \<Rightarrow> exn + int"

subsection \<open>Configuration (source lines 188-215)\<close>

record Token =
  symbol :: string
  token_address :: string
  decimals :: nat

definition TOKENS :: "Token list" where
  "TOKENS =
     [\<lparr>symbol = ''AXS'', token_address = ''0x97a9107c1793bc407d6f527b77e7fff4d812bece'',
       decimals = 18\<rparr>,
      \<lparr>symbol = ''WETH'', token_address = ''0xc99a6a985ed2cac1ef41640596c5a5f9f4e19ef5'',
       decimals = 18\<rparr>]"

definition TREASURY_ADDRESS :: string where
  "TREASURY_ADDRESS = toLowerCase ''0x245db945c485b68fdc429e4f7085a1761aa4d45d''"

definition PROXY_ADDRESSES :: "string list" where
  "PROXY_ADDRESSES = [toLowerCase ''0x3b3adf1422f84254b7fbb0e7ca62bd0865133fe3'']"

definition TRANSFER_TOPIC :: "lib \<Rightarrow> string" where
  "TRANSFER_TOPIC l = ethers_id l ''Transfer(address,address,uint256)''"

definition BLOCK_SPAN :: int where
  "BLOCK_SPAN = 400"

definition MAX_CONCURRENCY :: nat where
  "MAX_CONCURRENCY = 2"

subsection \<open>The provider and the database\<close>

text \<open>
  A log and a transaction as the provider returns them (the fields the indexer reads;
  \<open>tx_from\<close> is the field \<^verbatim>\<open>from\<close> of the transaction), and a row of the table
  \<^verbatim>\<open>treasuryTransfer\<close> (the fields of the \<^verbatim>\<open>create\<close> literal, source lines 336-350;
  \<open>rec_blockNumber\<close> is its \<^verbatim>\<open>blockNumber\<close>).
\<close>

record Log =
  address :: string
  topics :: "string list"
  data :: string
  transactionHash :: string
  index :: int
  blockNumber :: int

record TransactionResponse =
  tx_from :: string

record TransferRecord =
  txHash :: string
  logIndex :: int
  rec_blockNumber :: int
  tokenSymbol :: string
  tokenAddress :: string
  treasury :: string
  proxyUsed :: bool
  txFrom :: string
  transferFrom :: string
  transferTo :: string
  contributor :: string
  amountRaw :: string
  amountFormatted :: string

text \<open>
  The environment of a run. \<open>getLogs addresses fromBlock toBlock topics\<close> and
  \<open>getTransaction hash\<close> are the provider's answers (\<open>Inl\<close>: the promise is rejected;
  \<open>Inr None\<close>: \<^verbatim>\<open>null\<close>). \<open>upsertFails r\<close> tells whether the database rejects the write
  of \<open>r\<close>; a rejected write changes nothing in the table.
\<close>

record env =
  getLogs :: "string list \<Rightarrow> int \<Rightarrow> int \<Rightarrow> string option list \<Rightarrow> exn + Log list"
  getTransaction :: "string \<Rightarrow> exn + TransactionResponse option"
  upsertFails :: "TransferRecord \<Rightarrow> bool"

text \<open>
  Prisma's \<^verbatim>\<open>upsert({where, update, create})\<close> on the unique key
  \<^verbatim>\<open>txHash_logIndex\<close>: a row with the key of \<^verbatim>\<open>where\<close> is updated with \<^verbatim>\<open>update\<close>,
  otherwise \<^verbatim>\<open>create\<close> is inserted. The table is the list of its rows.
\<close>

definition row_key :: "TransferRecord \<Rightarrow> string \<times> int" where
  "row_key r = (txHash r, logIndex r)"

definition upsert ::
  "env \<Rightarrow> TransferRecord list \<Rightarrow> string \<times> int \<Rightarrow> (TransferRecord \<Rightarrow> TransferRecord) \<Rightarrow>
   TransferRecord \<Rightarrow> exn + TransferRecord list" where
  "upsert e rows wh upd create =
     (if upsertFails e create then Inl DbError
      else if wh \<in> set (map row_key rows)
        then Inr (map (\<lambda>r. if row_key r = wh then upd r else r) rows)
        else Inr (rows @ [create]))"

subsection \<open>Helpers (source lines 223-256)\<close>

text \<open>
  \<^verbatim>\<open>chunkArray\<close>: the \<^verbatim>\<open>for\<close> loop, \<^verbatim>\<open>arr.slice(i, i + size)\<close> being
  \<open>take sz (drop i arr)\<close>. For \<open>sz = 0\<close> and a non-empty array the loop never ends.
\<close>

partial_function (option) chunkArray_loop ::
  "'a list \<Rightarrow> nat \<Rightarrow> nat \<Rightarrow> 'a list list \<Rightarrow> 'a list list option" where
  "chunkArray_loop arr sz i chunks =
     (if i < length arr
      then chunkArray_loop arr sz (i + sz) (chunks @ [take sz (drop i arr)])
      else Some chunks)"

declare chunkArray_loop.simps [code]

definition chunkArray :: "'a list \<Rightarrow> nat \<Rightarrow> 'a list list option" where
  "chunkArray arr sz = chunkArray_loop arr sz 0 []"

text \<open>
  \<^verbatim>\<open>topicToAddress\<close>; its argument is \<^verbatim>\<open>log.topics[k]\<close>, which is \<^verbatim>\<open>undefined\<close>
  (\<open>None\<close>) when the log has too few topics, and then \<^verbatim>\<open>topic.slice\<close> throws.
\<close>

definition topic_at :: "Log \<Rightarrow> nat \<Rightarrow> string option" where
  "topic_at lg k = (if k < length (topics lg) then Some (topics lg ! k) else None)"

definition topicToAddress :: "lib \<Rightarrow> string option \<Rightarrow> exn + string" where
  "topicToAddress l topic =
     (case topic of
        None \<Rightarrow> Inl TypeError
      | Some t \<Rightarrow> getAddress l (''0x'' @ slice_last 40 t))"

definition computeContributor :: "lib \<Rightarrow> string \<Rightarrow> string \<Rightarrow> exn + string" where
  "computeContributor l transferFrom' txFrom' =
     (let fromLower = toLowerCase transferFrom' in
      if fromLower \<in> set PROXY_ADDRESSES then getAddress l txFrom' else Inr transferFrom')"

subsection \<open>The indexer (source lines 260-371)\<close>

text \<open>
  A JavaScript \<^verbatim>\<open>Map\<close> is an association list in insertion order: \<^verbatim>\<open>set\<close> is
  \<^const>\<open>AList.update\<close> (it replaces the value of a key in place, or appends the key),
  \<^verbatim>\<open>get\<close> is \<^const>\<open>map_of\<close>, and \<^verbatim>\<open>new Map(entries)\<close> sets the entries one by one.
\<close>

definition new_Map :: "('k \<times> 'v) list \<Rightarrow> ('k \<times> 'v) list" where
  "new_Map entries = foldl (\<lambda>m (k, v). AList.update k v m) [] entries"

definition tokenAddrMap :: "(string \<times> Token) list" where
  "tokenAddrMap = new_Map (map (\<lambda>t. (toLowerCase (token_address t), t)) TOKENS)"

definition topicsFilter :: "lib \<Rightarrow> string option list" where
  "topicsFilter l =
     (let treasury' = TREASURY_ADDRESS; toTopic = zeroPadValue l treasury' 32
      in [Some (TRANSFER_TOPIC l), None, Some toTopic])"

text \<open>
  The state a run works on: the table \<^verbatim>\<open>treasuryTransfer\<close> of the database, and the
  two local accumulators of \<^verbatim>\<open>indexRange\<close>.
\<close>

record run =
  treasuryTransfer :: "TransferRecord list"
  totalWeiByToken :: "(string \<times> int) list"
  totalRecords :: int

text \<open>
  The body of the inner loop, in two parts. \<open>decode_log\<close> is source lines 299-321
  together with the \<^verbatim>\<open>create\<close> literal of lines 336-350: it reads no state and writes
  none. Its result is \<open>Inl e\<close> when a call throws, \<open>Inr None\<close> at a \<^verbatim>\<open>continue\<close>, and
  otherwise the token, the amount and the row to create.
\<close>

definition decode_log :: "lib \<Rightarrow> env \<Rightarrow> Log \<Rightarrow> exn + (Token \<times> int \<times> TransferRecord) option" where
  "decode_log l e lg =
     (case map_of tokenAddrMap (toLowerCase (address lg)) of
        None \<Rightarrow> Inr None
      | Some token \<Rightarrow>
     (case topicToAddress l (topic_at lg 1) of
        Inl err \<Rightarrow> Inl err
      | Inr transferFrom' \<Rightarrow>
     (case topicToAddress l (topic_at lg 2) of
        Inl err \<Rightarrow> Inl err
      | Inr transferTo' \<Rightarrow>
     (case BigInt l (data lg) of
        Inl err \<Rightarrow> Inl err
      | Inr valueWei \<Rightarrow>
     (case getTransaction e (transactionHash lg) of
        Inl err \<Rightarrow> Inl err
      | Inr None \<Rightarrow> Inr None
      | Inr (Some tx) \<Rightarrow>
     (case getAddress l (tx_from tx) of
        Inl err \<Rightarrow> Inl err
      | Inr txFrom' \<Rightarrow>
     (case computeContributor l transferFrom' txFrom' of
        Inl err \<Rightarrow> Inl err
      | Inr contributor' \<Rightarrow>
     (case formatUnits l valueWei (decimals token) of
        Inl err \<Rightarrow> Inl err
      | Inr formatted \<Rightarrow>
        (let proxyUsed' = (toLowerCase transferFrom' \<in> set PROXY_ADDRESSES)
         in Inr (Some (token, valueWei,
              \<lparr>txHash = transactionHash lg,
               logIndex = index lg,
               rec_blockNumber = blockNumber lg,
               tokenSymbol = symbol token,
               tokenAddress = token_address token,
               treasury = transferTo',
               proxyUsed = proxyUsed',
               txFrom = txFrom',
               transferFrom = transferFrom',
               transferTo = transferTo',
               contributor = contributor',
               amountRaw = toString valueWei,
               amountFormatted = formatted\<rparr>)))))))))))"

text \<open>
  \<open>process_log\<close> is the whole body (source lines 298-361): after \<open>decode_log\<close> it adds
  the amount to the token's total (lines 323-325), then calls \<^verbatim>\<open>upsert\<close> with the empty
  \<^verbatim>\<open>update\<close> inside \<^verbatim>\<open>try\<close> (lines 327-360); \<^verbatim>\<open>totalRecords += 1\<close> follows the call
  inside the \<^verbatim>\<open>try\<close>, and the \<^verbatim>\<open>catch\<close> only logs. The result is the exception that
  leaves the body, if any, and the state.
\<close>

definition process_log :: "lib \<Rightarrow> env \<Rightarrow> run \<Rightarrow> Log \<Rightarrow> exn option \<times> run" where
  "process_log l e st lg =
     (case decode_log l e lg of
        Inl err \<Rightarrow> (Some err, st)
      | Inr None \<Rightarrow> (None, st)
      | Inr (Some (token, valueWei, create)) \<Rightarrow>
        (let prev = (case map_of (totalWeiByToken st) (symbol token) of
                       None \<Rightarrow> 0 | Some v \<Rightarrow> v);
             st1 = st\<lparr>totalWeiByToken :=
                      AList.update (symbol token) (prev + valueWei) (totalWeiByToken st)\<rparr>
         in case upsert e (treasuryTransfer st1) (transactionHash lg, index lg) (\<lambda>r. r) create of
              Inl dbErr \<Rightarrow> (None, st1)
            | Inr rows \<Rightarrow>
                (None, st1\<lparr>treasuryTransfer := rows,
                          totalRecords := js_add (totalRecords st1) 1\<rparr>)))"

text \<open>
  The two \<^verbatim>\<open>for \<dots> of\<close> loops (source lines 297-362): an exception leaves both.
\<close>

fun process_logs :: "lib \<Rightarrow> env \<Rightarrow> run \<Rightarrow> Log list \<Rightarrow> exn option \<times> run" where
  "process_logs l e st [] = (None, st)"
| "process_logs l e st (lg # logs) =
     (case process_log l e st lg of
        (Some err, st') \<Rightarrow> (Some err, st')
      | (None, st') \<Rightarrow> process_logs l e st' logs)"

fun process_results :: "lib \<Rightarrow> env \<Rightarrow> run \<Rightarrow> Log list list \<Rightarrow> exn option \<times> run" where
  "process_results l e st [] = (None, st)"
| "process_results l e st (logs # results) =
     (case process_logs l e st logs of
        (Some err, st') \<Rightarrow> (Some err, st')
      | (None, st') \<Rightarrow> process_results l e st' results)"

text \<open>
  \<^verbatim>\<open>Promise.all\<close>: the array of the results when every promise is fulfilled, a
  rejection when one is rejected.
\<close>

fun Promise_all :: "(exn + 'a) list \<Rightarrow> exn + 'a list" where
  "Promise_all [] = Inr []"
| "Promise_all (p # ps) =
     (case p of
        Inl err \<Rightarrow> Inl err
      | Inr v \<Rightarrow> (case Promise_all ps of Inl err \<Rightarrow> Inl err | Inr vs \<Rightarrow> Inr (v # vs)))"

text \<open>
  One turn of the outer loop (source lines 277-368): the \<^verbatim>\<open>try\<close> block fetches the
  logs of all windows of the batch with \<^verbatim>\<open>Promise.all\<close> and then processes them; the
  \<^verbatim>\<open>catch\<close> logs whatever was thrown, by the fetch or while processing, and the loop
  goes on with the state as it is.
\<close>

definition run_batch :: "lib \<Rightarrow> env \<Rightarrow> run \<Rightarrow> BlockRange list \<Rightarrow> run" where
  "run_batch l e st batch =
     (case Promise_all
             (map (\<lambda>r. getLogs e (map token_address TOKENS) (fromBlock r) (toBlock r)
                         (topicsFilter l)) batch) of
        Inl err \<Rightarrow> st
      | Inr results \<Rightarrow> snd (process_results l e st results))"

text \<open>
  \<^verbatim>\<open>indexRange\<close>. The table before the call is an argument; the result is \<open>None\<close> when
  the call does not return, and otherwise the table after the call together with the
  returned \<^verbatim>\<open>totalWeiByToken\<close> and \<^verbatim>\<open>totalRecords\<close>.
\<close>

definition indexRange :: "lib \<Rightarrow> env \<Rightarrow> TransferRecord list \<Rightarrow> int \<Rightarrow> int \<Rightarrow> run option" where
  "indexRange l e db fromBlk toBlk =
     (case buildRangesForward fromBlk toBlk BLOCK_SPAN of
        None \<Rightarrow> None
      | Some ranges \<Rightarrow>
     (case chunkArray ranges MAX_CONCURRENCY of
        None \<Rightarrow> None
      | Some batches \<Rightarrow>
          Some (foldl (run_batch l e)
                  \<lparr>treasuryTransfer = db, totalWeiByToken = [], totalRecords = 0\<rparr> batches)))"

subsection \<open>A concrete library, provider and database\<close>

text \<open>
  Stand-ins that instantiate the parameters at concrete inputs. \<open>getAddress0\<close> knows
  five addresses in their EIP-55 form and answers as \<^verbatim>\<open>ethers.getAddress\<close> does on
  their lower-case and their EIP-55 spelling; \<open>BigInt0\<close> reads a \<^verbatim>\<open>0x\<close> hexadecimal
  string, the form of \<^verbatim>\<open>log.data\<close>; \<open>formatUnits0\<close> prints a non-negative amount as a
  decimal fraction without trailing zeros and rejects an amount of 512 bits or more; \<open>zeroPadValue0\<close> pads a hex string on the
  left to the given number of bytes.
\<close>

definition addr_proxy :: string where
  "addr_proxy = ''0x3B3aDf1422f84254B7fbb0e7cA62Bd0865133fe3''"

definition addr_treasury :: string where
  "addr_treasury = ''0x245db945c485b68fDc429E4F7085a1761Aa4d45d''"

definition addr_X :: string where
  "addr_X = ''0x5aAeb6053F3E94C9b9A09f33669435E7Ef1BeAed''"

definition addr_Y :: string where
  "addr_Y = ''0xfB6916095ca1df60bB79Ce92cE3Ea74c37c5d359''"

definition addr_Z :: string where
  "addr_Z = ''0xdbF03B407c01E7cD3CBea99509d93f8DDDC8C6FB''"

definition known_addresses :: "string list" where
  "known_addresses = [addr_proxy, addr_treasury, addr_X, addr_Y, addr_Z]"

definition getAddress0 :: "string \<Rightarrow> exn + string" where
  "getAddress0 s =
     (case find (\<lambda>c. s = c \<or> s = toLowerCase c) known_addresses of
        Some c \<Rightarrow> Inr c
      | None \<Rightarrow> Inl ArgumentError)"

definition hex_digit :: "char \<Rightarrow> nat option" where
  "hex_digit c =
     (let n = (of_char c :: nat) in
      if 48 \<le> n \<and> n \<le> 57 then Some (n - 48)
      else if 97 \<le> n \<and> n \<le> 102 then Some (n - 87)
      else if 65 \<le> n \<and> n \<le> 70 then Some (n - 55)
      else None)"

fun parse_hex :: "nat \<Rightarrow> string \<Rightarrow> nat option" where
  "parse_hex acc [] = Some acc"
| "parse_hex acc (c # cs) =
     (case hex_digit c of None \<Rightarrow> None | Some d \<Rightarrow> parse_hex (16 * acc + d) cs)"

definition BigInt0 :: "string \<Rightarrow> exn + int" where
  "BigInt0 s =
     (if take 2 s = ''0x'' \<and> drop 2 s \<noteq> [] then
        (case parse_hex 0 (drop 2 s) of
           None \<Rightarrow> Inl ArgumentError
         | Some n \<Rightarrow> Inr (int n))
      else Inl ArgumentError)"

definition formatUnits0 :: "int \<Rightarrow> nat \<Rightarrow> exn + string" where
  "formatUnits0 v d =
     (if 2 ^ 511 \<le> \<bar>v\<bar> then Inl ArgumentError
      else
        (let whole = v div 10 ^ d;
             frac = digits (nat (v mod 10 ^ d));
             padded = replicate (d - length frac) (CHR ''0'') @ frac;
             stripped = rev (dropWhile (\<lambda>c. c = CHR ''0'') (rev padded))
         in Inr (toString whole @ ''.'' @ (if stripped = [] then ''0'' else stripped))))"

definition ethers_id0 :: "string \<Rightarrow> string" where
  "ethers_id0 s =
     (if s = ''Transfer(address,address,uint256)''
      then ''0xddf252ad1be2c89b69c2b068fc378daa952ba7f163c4a11628f55a4df523b3ef''
      else [])"

definition zeroPadValue0 :: "string \<Rightarrow> nat \<Rightarrow> string" where
  "zeroPadValue0 s n = ''0x'' @ replicate (2 * n - (length s - 2)) (CHR ''0'') @ drop 2 s"

definition lib0 :: lib where
  "lib0 = \<lparr>getAddress = getAddress0, formatUnits = formatUnits0, ethers_id = ethers_id0,
            zeroPadValue = zeroPadValue0, BigInt = BigInt0\<rparr>"

text \<open>
  Three logs: an AXS transfer of one token in block 100 from the proxy to the treasury,
  sent by \<open>addr_X\<close>; a WETH transfer of half a token in block 500 from \<open>addr_Y\<close> to the
  treasury; and an AXS transfer in block 100 from \<open>addr_Y\<close> to \<open>addr_Z\<close>, which is not
  the treasury.
\<close>

definition hash_a :: string where
  "hash_a = ''0xa1a1a1a1a1a1a1a1a1a1a1a1a1a1a1a1a1a1a1a1a1a1a1a1a1a1a1a1a1a1a1a1''"

definition hash_b :: string where
  "hash_b = ''0xb2b2b2b2b2b2b2b2b2b2b2b2b2b2b2b2b2b2b2b2b2b2b2b2b2b2b2b2b2b2b2b2''"

definition hash_c :: string where
  "hash_c = ''0xc3c3c3c3c3c3c3c3c3c3c3c3c3c3c3c3c3c3c3c3c3c3c3c3c3c3c3c3c3c3c3c3''"

definition log_proxy :: Log where
  "log_proxy =
     \<lparr>address = ''0x97a9107C1793BC407d6F527b77e7fff4D812bece'',
      topics = [ethers_id0 ''Transfer(address,address,uint256)'',
                zeroPadValue0 (toLowerCase addr_proxy) 32,
                zeroPadValue0 (toLowerCase addr_treasury) 32],
      data = ''0x0000000000000000000000000000000000000000000000000de0b6b3a7640000'',
      transactionHash = hash_a, index = 0, blockNumber = 100\<rparr>"

definition log_direct :: Log where
  "log_direct =
     \<lparr>address = ''0xc99a6A985eD2Cac1ef41640596C5A5f9F4E19Ef5'',
      topics = [ethers_id0 ''Transfer(address,address,uint256)'',
                zeroPadValue0 (toLowerCase addr_Y) 32,
                zeroPadValue0 (toLowerCase addr_treasury) 32],
      data = ''0x00000000000000000000000000000000000000000000000006f05b59d3b20000'',
      transactionHash = hash_b, index = 3, blockNumber = 500\<rparr>"

definition log_elsewhere :: Log where
  "log_elsewhere =
     \<lparr>address = ''0x97a9107C1793BC407d6F527b77e7fff4D812bece'',
      topics = [ethers_id0 ''Transfer(address,address,uint256)'',
                zeroPadValue0 (toLowerCase addr_Y) 32,
                zeroPadValue0 (toLowerCase addr_Z) 32],
      data = ''0x0000000000000000000000000000000000000000000000000de0b6b3a7640000'',
      transactionHash = hash_c, index = 1, blockNumber = 100\<rparr>"

definition getTransaction0 :: "string \<Rightarrow> exn + TransactionResponse option" where
  "getTransaction0 h =
     (if h = hash_a then Inr (Some \<lparr>tx_from = addr_X\<rparr>)
      else if h = hash_b \<or> h = hash_c then Inr (Some \<lparr>tx_from = addr_Y\<rparr>)
      else Inr None)"

definition logs_between :: "Log list \<Rightarrow> int \<Rightarrow> int \<Rightarrow> Log list" where
  "logs_between logs lo hi = filter (\<lambda>lg. lo \<le> blockNumber lg \<and> blockNumber lg \<le> hi) logs"

text \<open>
  \<open>env0\<close>: a provider that holds the first two logs and a database that accepts every
  write. \<open>env_fail\<close>: the same, but the provider rejects the query for a window that
  starts at block 0. \<open>env_down\<close>: the same as \<open>env0\<close>, but the database rejects every
  write. \<open>env_loose\<close>: a provider that answers with the third log, whatever the topic
  filter says.
\<close>

definition env0 :: env where
  "env0 = \<lparr>getLogs = (\<lambda>addrs lo hi tps. Inr (logs_between [log_proxy, log_direct] lo hi)),
            getTransaction = getTransaction0,
            upsertFails = (\<lambda>r. False)\<rparr>"

definition env_fail :: env where
  "env_fail = env0\<lparr>getLogs := (\<lambda>addrs lo hi tps.
       if lo = 0 then Inl ProviderError else Inr (logs_between [log_proxy, log_direct] lo hi))\<rparr>"

definition env_down :: env where
  "env_down = env0\<lparr>upsertFails := (\<lambda>r. True)\<rparr>"

definition env_loose :: env where
  "env_loose = env0\<lparr>getLogs := (\<lambda>addrs lo hi tps. Inr (logs_between [log_elsewhere] lo hi))\<rparr>"

text \<open>The rows the three logs are stored as.\<close>

definition row_proxy :: TransferRecord where
  "row_proxy =
     \<lparr>txHash = hash_a, logIndex = 0, rec_blockNumber = 100, tokenSymbol = ''AXS'',
      tokenAddress = ''0x97a9107c1793bc407d6f527b77e7fff4d812bece'',
      treasury = addr_treasury, proxyUsed = True, txFrom = addr_X,
      transferFrom = addr_proxy, transferTo = addr_treasury, contributor = addr_X,
      amountRaw = ''1000000000000000000'', amountFormatted = ''1.0''\<rparr>"

definition row_direct :: TransferRecord where
  "row_direct =
     \<lparr>txHash = hash_b, logIndex = 3, rec_blockNumber = 500, tokenSymbol = ''WETH'',
      tokenAddress = ''0xc99a6a985ed2cac1ef41640596c5a5f9f4e19ef5'',
      treasury = addr_treasury, proxyUsed = False, txFrom = addr_Y,
      transferFrom = addr_Y, transferTo = addr_treasury, contributor = addr_Y,
      amountRaw = ''500000000000000000'', amountFormatted = ''0.5''\<rparr>"

definition row_elsewhere :: TransferRecord where
  "row_elsewhere =
     \<lparr>txHash = hash_c, logIndex = 1, rec_blockNumber = 100, tokenSymbol = ''AXS'',
      tokenAddress = ''0x97a9107c1793bc407d6f527b77e7fff4d812bece'',
      treasury = addr_Z, proxyUsed = False, txFrom = addr_Y,
      transferFrom = addr_Y, transferTo = addr_Z, contributor = addr_Y,
      amountRaw = ''1000000000000000000'', amountFormatted = ''1.0''\<rparr>"

subsection \<open>Vocabulary of the proofs\<close>

text \<open>
  Two relations between the state before and after a piece of a run, used in the
  proofs only. \<open>appends a b\<close>: the table of \<open>b\<close> is the table of \<open>a\<close> followed by new
  rows, whose keys differ from each other and from the keys of \<open>a\<close>. \<open>built l e a b\<close>:
  every row of \<open>b\<close> that is not a row of \<open>a\<close> is the row that \<open>decode_log\<close> makes of
  some log.
\<close>

definition appends :: "run \<Rightarrow> run \<Rightarrow> bool" where
  "appends a b =
     (\<exists>new. treasuryTransfer b = treasuryTransfer a @ new \<and> distinct (map row_key new) \<and>
        set (map row_key new) \<inter> set (map row_key (treasuryTransfer a)) = {})"

definition built :: "lib \<Rightarrow> env \<Rightarrow> run \<Rightarrow> run \<Rightarrow> bool" where
  "built l e a b =
     (\<forall>r \<in> set (treasuryTransfer b). r \<in> set (treasuryTransfer a) \<or>
        (\<exists>lg tok v. decode_log l e lg = Inr (Some (tok, v, r))))"

section \<open>Proofs\<close>

subsection \<open>The range planner returns, and tiles the interval\<close>

lemma fround_exact: "\<bar>x\<bar> \<le> 2 ^ 53 \<Longrightarrow> fround x = x"
  by (simp add: fround_def)

lemma fround_ge:
  assumes "2 ^ 53 \<le> x"
  shows "2 ^ 53 \<le> fround x"
proof (cases "x = 2 ^ 53")
  case True
  then show ?thesis by (simp add: fround_def)
next
  case False
  with assms have x: "2 ^ 53 < x" by simp
  then have pos: "0 < x" by (simp add: less_trans [of 0 "2 ^ 53"])
  define b where "b = nat (bitlen x)"
  define u :: int where "u = 2 ^ (b - 53)"
  from bitlen_bounds [OF pos] have lo: "2 ^ nat (bitlen x - 1) \<le> x" and hi: "x < 2 ^ b"
    by (simp_all add: b_def)
  from x hi have "(2::int) ^ 53 < 2 ^ b" by (rule less_trans)
  then have b: "53 < b"
    by (simp only: power_strict_increasing_iff one_less_numeral_iff semiring_norm)
  then have "nat (bitlen x - 1) = 52 + (b - 53)" by (simp add: b_def)
  with lo have lo': "2 ^ 52 * u \<le> x" by (simp add: u_def power_add)
  have upos: "0 < u" by (simp add: u_def)
  from b obtain k where "b - 53 = Suc k" by (cases "b - 53") auto
  then have "u = 2 * 2 ^ k" by (simp add: u_def)
  then have u2: "2 \<le> u" by simp
  from zdiv_mono1 [OF lo' upos] upos have q: "2 ^ 52 \<le> x div u" by simp
  define n where "n = (if 2 * (x mod u) < u \<or> (2 * (x mod u) = u \<and> even (x div u))
    then x div u else x div u + 1)"
  from q have n: "2 ^ 52 \<le> n" by (simp add: n_def)
  from n u2 have "2 ^ 52 * 2 \<le> n * u" by (intro mult_mono) simp_all
  then have "2 ^ 53 \<le> n * u" by simp
  moreover from x pos have "fround x = n * u"
    by (simp add: fround_def Let_def n_def u_def b_def)
  ultimately show ?thesis by simp
qed

lemma js_small:
  "\<bar>a + b\<bar> \<le> 2 ^ 53 \<Longrightarrow> js_add a b = a + b"
  "\<bar>a - b\<bar> \<le> 2 ^ 53 \<Longrightarrow> js_sub a b = a - b"
  by (simp_all add: js_add_def js_sub_def fround_exact)

text \<open>
  On safe integers the loop computes the end of a window and the next start as exact
  arithmetic does: a sum that leaves the safe integers is rounded to a number that is
  still beyond \<open>toBlk\<close>, so \<^verbatim>\<open>Math.min\<close> returns \<open>toBlk\<close>.
\<close>

lemma window_end:
  assumes "- (2 ^ 53) < s" and "s \<le> t" and "t < 2 ^ 53" and "1 \<le> sp"
  shows "min (js_sub (js_add s sp) 1) t = min (s + sp - 1) t"
proof (cases "s + sp \<le> 2 ^ 53")
  case True
  with assms have "\<bar>s + sp\<bar> \<le> 2 ^ 53" "\<bar>s + sp - 1\<bar> \<le> 2 ^ 53" by simp_all
  then show ?thesis by (simp add: js_small)
next
  case False
  then have "2 ^ 53 \<le> s + sp" by simp
  from fround_ge [OF this] have 1: "2 ^ 53 \<le> js_add s sp" by (simp add: js_add_def)
  have "2 ^ 53 - 1 \<le> js_sub (js_add s sp) 1"
  proof (cases "js_add s sp = 2 ^ 53")
    case True
    then show ?thesis by (simp add: js_sub_def fround_exact)
  next
    case False
    with 1 have "2 ^ 53 \<le> js_add s sp - 1" by simp
    from fround_ge [OF this] show ?thesis by (simp add: js_sub_def)
  qed
  with assms(3) False show ?thesis by simp
qed

lemma window_next:
  assumes "- (2 ^ 53) < e" and "e < 2 ^ 53"
  shows "js_add e 1 = e + 1"
  using assms by (simp add: js_small)

lemma buildRangesForward_loop_tiles:
  assumes "1 \<le> sp" and "- (2 ^ 53) < s" and "t < 2 ^ 53"
  shows "\<exists>ws. buildRangesForward_loop s t sp acc = Some (acc @ ws) \<and> tiles s t sp ws"
  using assms(2)
proof (induction "nat (t - s + 1)" arbitrary: s acc rule: less_induct)
  case less
  show ?case
  proof (cases "s \<le> t")
    case False
    then have "buildRangesForward_loop s t sp acc = Some (acc @ [])"
      by (simp add: buildRangesForward_loop.simps)
    moreover from False have "tiles s t sp []" by simp
    ultimately show ?thesis by blast
  next
    case True
    define e where "e = min (s + sp - 1) t"
    define w where "w = \<lparr>fromBlock = s, toBlock = e\<rparr>"
    from True assms(1) have e: "s \<le> e" "e \<le> t" by (auto simp: e_def)
    then have m: "nat (t - (e + 1) + 1) < nat (t - s + 1)" by simp
    from e less.prems have lo: "- (2 ^ 53) < e + 1" by simp
    from less.hyps [OF m lo, of "acc @ [w]"] obtain ws' where
      ws': "buildRangesForward_loop (e + 1) t sp (acc @ [w]) = Some ((acc @ [w]) @ ws')"
      "tiles (e + 1) t sp ws'" by blast
    from window_end [OF less.prems True assms(3) assms(1)]
    have e': "min (js_sub (js_add s sp) 1) t = e" by (simp add: e_def)
    from e less.prems assms(3) have "js_add e 1 = e + 1" by (intro window_next) simp_all
    with True e' have "buildRangesForward_loop s t sp acc =
        buildRangesForward_loop (e + 1) t sp (acc @ [w])"
      by (subst buildRangesForward_loop.simps) (simp add: w_def Let_def)
    with ws' have "buildRangesForward_loop s t sp acc = Some (acc @ (w # ws'))" by simp
    moreover from True ws' have "tiles s t sp (w # ws')" by (simp add: w_def e_def)
    ultimately show ?thesis by blast
  qed
qed
















text \<open>
  Claim C7 says that the planner rejects \<open>fromBlk > toBlk\<close> with an error. The source has
  no such check: the loop condition \<^verbatim>\<open>start <= toBlock\<close> is false at once and the
  function returns the empty array.
\<close>

theorem buildRangesForward_reversed_counterexample:
  "buildRangesForward 5 3 400 = Some []"
  by (simp add: buildRangesForward_def buildRangesForward_loop.simps)

text \<open>
  Claim C7 as amended: for \<open>fromBlk > toBlk\<close> the planner returns the empty list of
  windows, whatever the span is.
\<close>

theorem buildRangesForward_reversed:
  "toBlk < fromBlk \<Longrightarrow> buildRangesForward fromBlk toBlk blockSpan = Some []"
  by (simp add: buildRangesForward_def buildRangesForward_loop.simps)

theorem buildRangesForward_reversed_witness:
  "(16377000::int) < 50532500 \<and> buildRangesForward 50532500 16377000 400 = Some []"
  using buildRangesForward_reversed [of 16377000 50532500 400] by simp

declare digits.simps [simp del]

subsection \<open>The batches of a run\<close>

lemma chunkArray_loop_returns:
  assumes "0 < sz"
  shows "\<exists>cs. chunkArray_loop arr sz i acc = Some (acc @ cs) \<and> concat cs = drop i arr \<and>
    [] \<notin> set cs"
proof (induction "length arr - i" arbitrary: i acc rule: less_induct)
  case less
  show ?case
  proof (cases "i < length arr")
    case False
    then have "chunkArray_loop arr sz i acc = Some (acc @ [])"
      by (simp add: chunkArray_loop.simps)
    with False show ?thesis by force
  next
    case True
    define c where "c = take sz (drop i arr)"
    with assms True have c: "c \<noteq> []" by simp
    from assms True have "length arr - (i + sz) < length arr - i" by simp
    from less [OF this, of "acc @ [c]"] obtain cs where
      cs: "chunkArray_loop arr sz (i + sz) (acc @ [c]) = Some ((acc @ [c]) @ cs)"
      "concat cs = drop (i + sz) arr" "[] \<notin> set cs" by blast
    from True have "chunkArray_loop arr sz i acc = chunkArray_loop arr sz (i + sz) (acc @ [c])"
      by (subst chunkArray_loop.simps) (simp add: c_def)
    with cs have 1: "chunkArray_loop arr sz i acc = Some (acc @ (c # cs))" by simp
    have "drop (i + sz) arr = drop sz (drop i arr)" by (simp add: add.commute)
    with cs(2) have "concat (c # cs) = take sz (drop i arr) @ drop sz (drop i arr)"
      by (simp only: concat.simps c_def)
    then have 2: "concat (c # cs) = drop i arr" by (simp only: append_take_drop_id)
    from c cs(3) have 3: "[] \<notin> set (c # cs)" by auto
    from 1 2 3 show ?thesis by blast
  qed
qed

text \<open>
  With a positive size \<^verbatim>\<open>chunkArray\<close> returns, its chunks put together are the array,
  and no chunk is empty: \<^verbatim>\<open>batch[0]\<close> in the progress message of \<^verbatim>\<open>indexRange\<close> (source
  lines 279-283) is defined.
\<close>

lemma chunkArray_returns:
  "0 < sz \<Longrightarrow> \<exists>cs. chunkArray arr sz = Some cs \<and> concat cs = arr \<and> [] \<notin> set cs"
  using chunkArray_loop_returns [of sz arr 0 "[]"] by (simp add: chunkArray_def)

text \<open>
  The windows and the groups of a run depend on the two block bounds only. A run whose
  bounds are safe integers returns.
\<close>

lemma indexRange_batches:
  assumes "indexRange l e db fromBlk toBlk = Some st"
  shows "\<exists>batches. \<forall>l e db. indexRange l e db fromBlk toBlk =
     Some (foldl (run_batch l e)
             \<lparr>treasuryTransfer = db, totalWeiByToken = [], totalRecords = 0\<rparr> batches)"
proof -
  from assms obtain ranges where r: "buildRangesForward fromBlk toBlk BLOCK_SPAN = Some ranges"
    by (auto simp: indexRange_def split: option.splits)
  with assms obtain batches where b: "chunkArray ranges MAX_CONCURRENCY = Some batches"
    by (auto simp: indexRange_def split: option.splits)
  from r b have "\<forall>l e db. indexRange l e db fromBlk toBlk =
      Some (foldl (run_batch l e)
              \<lparr>treasuryTransfer = db, totalWeiByToken = [], totalRecords = 0\<rparr> batches)"
    by (simp add: indexRange_def)
  then show ?thesis by blast
qed

lemma indexRange_returns:
  assumes "- (2 ^ 53) < fromBlk" and "toBlk < 2 ^ 53"
  shows "\<exists>st. indexRange l e db fromBlk toBlk = Some st"
proof -
  have "1 \<le> BLOCK_SPAN" by (simp add: BLOCK_SPAN_def)
  from buildRangesForward_loop_tiles [OF this assms, of "[]"]
  obtain ranges where r: "buildRangesForward fromBlk toBlk BLOCK_SPAN = Some ranges"
    by (auto simp: buildRangesForward_def)
  have "0 < MAX_CONCURRENCY" by (simp add: MAX_CONCURRENCY_def)
  from chunkArray_returns [OF this, of ranges]
  obtain batches where b: "chunkArray ranges MAX_CONCURRENCY = Some batches"
    by blast
  from r b show ?thesis by (simp add: indexRange_def)
qed

subsection \<open>What one log does\<close>

lemma decode_log_SomeD:
  assumes "decode_log l e lg = Inr (Some (tok, v, r))"
  shows "\<exists>tx. map_of tokenAddrMap (toLowerCase (address lg)) = Some tok
    \<and> topicToAddress l (topic_at lg 1) = Inr (transferFrom r)
    \<and> topicToAddress l (topic_at lg 2) = Inr (transferTo r)
    \<and> BigInt l (data lg) = Inr v
    \<and> getTransaction e (transactionHash lg) = Inr (Some tx)
    \<and> getAddress l (tx_from tx) = Inr (txFrom r)
    \<and> computeContributor l (transferFrom r) (txFrom r) = Inr (contributor r)
    \<and> proxyUsed r = (toLowerCase (transferFrom r) \<in> set PROXY_ADDRESSES)
    \<and> treasury r = transferTo r
    \<and> txHash r = transactionHash lg \<and> logIndex r = index lg
    \<and> rec_blockNumber r = blockNumber lg
    \<and> tokenSymbol r = symbol tok \<and> tokenAddress r = token_address tok
    \<and> amountRaw r = toString v
    \<and> formatUnits l v (decimals tok) = Inr (amountFormatted r)"
  using assms
  by (auto simp: decode_log_def Let_def split: option.splits sum.splits)

lemma decode_log_fieldsD:
  assumes "decode_log l e lg = Inr (Some (tok, v, r))"
  shows "topicToAddress l (topic_at lg 1) = Inr (transferFrom r)"
    and "topicToAddress l (topic_at lg 2) = Inr (transferTo r)"
    and "BigInt l (data lg) = Inr v"
    and "computeContributor l (transferFrom r) (txFrom r) = Inr (contributor r)"
    and "proxyUsed r = (toLowerCase (transferFrom r) \<in> set PROXY_ADDRESSES)"
    and "treasury r = transferTo r"
    and "txHash r = transactionHash lg"
    and "logIndex r = index lg"
    and "amountRaw r = toString v"
    and "\<exists>tx. getTransaction e (transactionHash lg) = Inr (Some tx)
      \<and> getAddress l (tx_from tx) = Inr (txFrom r)"
  using decode_log_SomeD [OF assms] by blast+

lemma decode_log_key:
  "decode_log l e lg = Inr (Some (tok, v, r)) \<Longrightarrow> row_key r = (transactionHash lg, index lg)"
  by (drule decode_log_SomeD) (auto simp: row_key_def)

lemma upsert_empty_update:
  "upsert e rows wh (\<lambda>r. r) c =
     (if upsertFails e c then Inl DbError
      else if wh \<in> set (map row_key rows) then Inr rows else Inr (rows @ [c]))"
  by (simp add: upsert_def)

lemma process_log_Some:
  assumes "decode_log l e lg = Inr (Some (tok, v, r))"
  shows "process_log l e st lg =
    (None,
     \<lparr>treasuryTransfer =
        (if upsertFails e r \<or> row_key r \<in> set (map row_key (treasuryTransfer st))
         then treasuryTransfer st else treasuryTransfer st @ [r]),
      totalWeiByToken =
        AList.update (symbol tok)
          ((case map_of (totalWeiByToken st) (symbol tok) of None \<Rightarrow> 0 | Some p \<Rightarrow> p) + v)
          (totalWeiByToken st),
      totalRecords =
        (if upsertFails e r then totalRecords st else js_add (totalRecords st) 1)\<rparr>)"
  using assms decode_log_key [OF assms]
  by (simp add: process_log_def Let_def upsert_empty_update)

lemma process_log_None: "decode_log l e lg = Inr None \<Longrightarrow> process_log l e st lg = (None, st)"
  by (simp add: process_log_def)

lemma process_log_Inl: "decode_log l e lg = Inl err \<Longrightarrow> process_log l e st lg = (Some err, st)"
  by (simp add: process_log_def)

subsection \<open>From one log to a run\<close>

lemma process_logs_lift:
  assumes step: "\<And>st lg. R st (snd (process_log l e st lg))"
    and refl: "\<And>st. R st st"
    and trans: "\<And>a b c. R a b \<Longrightarrow> R b c \<Longrightarrow> R a c"
  shows "R st (snd (process_logs l e st logs))"
proof (induction logs arbitrary: st)
  case Nil
  show ?case by (simp add: refl)
next
  case (Cons lg logs)
  obtain x st' where p: "process_log l e st lg = (x, st')"
    by (cases "process_log l e st lg")
  from step [of st lg] p have 1: "R st st'" by simp
  show ?case
  proof (cases x)
    case None
    with p have "process_logs l e st (lg # logs) = process_logs l e st' logs" by simp
    with trans [OF 1 Cons.IH [of st']] show ?thesis by simp
  next
    case (Some err)
    with p have "process_logs l e st (lg # logs) = (Some err, st')" by simp
    with 1 show ?thesis by simp
  qed
qed

lemma process_results_lift:
  assumes step: "\<And>st lg. R st (snd (process_log l e st lg))"
    and refl: "\<And>st. R st st"
    and trans: "\<And>a b c. R a b \<Longrightarrow> R b c \<Longrightarrow> R a c"
  shows "R st (snd (process_results l e st results))"
proof (induction results arbitrary: st)
  case Nil
  show ?case by (simp add: refl)
next
  case (Cons logs results)
  obtain x st' where p: "process_logs l e st logs = (x, st')"
    by (cases "process_logs l e st logs")
  from process_logs_lift [of R l e st logs, OF step refl trans] p have 1: "R st st'" by simp
  show ?case
  proof (cases x)
    case None
    with p have "process_results l e st (logs # results) = process_results l e st' results"
      by simp
    with trans [OF 1 Cons.IH [of st']] show ?thesis by simp
  next
    case (Some err)
    with p have "process_results l e st (logs # results) = (Some err, st')" by simp
    with 1 show ?thesis by simp
  qed
qed

lemma run_batch_lift:
  assumes step: "\<And>st lg. R st (snd (process_log l e st lg))"
    and refl: "\<And>st. R st st"
    and trans: "\<And>a b c. R a b \<Longrightarrow> R b c \<Longrightarrow> R a c"
  shows "R st (run_batch l e st batch)"
proof (cases "Promise_all (map (\<lambda>r. getLogs e (map token_address TOKENS) (fromBlock r)
    (toBlock r) (topicsFilter l)) batch)")
  case (Inl err)
  then show ?thesis by (simp add: run_batch_def refl)
next
  case (Inr results)
  with process_results_lift [of R l e st results, OF step refl trans]
  show ?thesis by (simp add: run_batch_def)
qed

lemma run_batches_lift:
  assumes step: "\<And>st lg. R st (snd (process_log l e st lg))"
    and refl: "\<And>st. R st st"
    and trans: "\<And>a b c. R a b \<Longrightarrow> R b c \<Longrightarrow> R a c"
  shows "R st (foldl (run_batch l e) st batches)"
proof (induction batches arbitrary: st)
  case Nil
  show ?case by (simp add: refl)
next
  case (Cons b bs)
  from trans [OF run_batch_lift [of R l e st b, OF step refl trans]
      Cons.IH [of "run_batch l e st b"]]
  show ?case by simp
qed

lemma indexRange_lift:
  assumes step: "\<And>st lg. R st (snd (process_log l e st lg))"
    and refl: "\<And>st. R st st"
    and trans: "\<And>a b c. R a b \<Longrightarrow> R b c \<Longrightarrow> R a c"
    and run: "indexRange l e db fromBlk toBlk = Some st"
  shows "R \<lparr>treasuryTransfer = db, totalWeiByToken = [], totalRecords = 0\<rparr> st"
proof -
  from indexRange_batches [OF run] run obtain batches where
    "st = foldl (run_batch l e)
            \<lparr>treasuryTransfer = db, totalWeiByToken = [], totalRecords = 0\<rparr> batches"
    by auto
  with run_batches_lift [of R l e _ batches, OF step refl trans] show ?thesis by simp
qed

subsection \<open>Rows are only appended, with fresh keys\<close>

lemma appends_refl: "appends a a"
  by (simp add: appends_def)

lemma appends_trans:
  assumes "appends a b" and "appends b c"
  shows "appends a c"
proof -
  from assms(1) obtain n1 where 1: "treasuryTransfer b = treasuryTransfer a @ n1"
    "distinct (map row_key n1)"
    "set (map row_key n1) \<inter> set (map row_key (treasuryTransfer a)) = {}"
    by (auto simp: appends_def)
  from assms(2) obtain n2 where 2: "treasuryTransfer c = treasuryTransfer b @ n2"
    "distinct (map row_key n2)"
    "set (map row_key n2) \<inter> set (map row_key (treasuryTransfer b)) = {}"
    by (auto simp: appends_def)
  from 1 2 have "treasuryTransfer c = treasuryTransfer a @ (n1 @ n2)" by simp
  moreover from 1 2 have "distinct (map row_key (n1 @ n2))" by auto
  moreover from 1 2 have
    "set (map row_key (n1 @ n2)) \<inter> set (map row_key (treasuryTransfer a)) = {}" by auto
  ultimately show ?thesis unfolding appends_def by blast
qed

lemma process_log_appends: "appends st (snd (process_log l e st lg))"
proof (cases "decode_log l e lg")
  case (Inl err)
  then show ?thesis by (simp add: process_log_Inl appends_refl)
next
  case (Inr res)
  show ?thesis
  proof (cases res)
    case None
    with Inr show ?thesis by (simp add: process_log_None appends_refl)
  next
    case (Some x)
    obtain tok v r where "x = (tok, v, r)" by (cases x)
    with Inr Some have d: "decode_log l e lg = Inr (Some (tok, v, r))" by simp
    show ?thesis
    proof (cases "upsertFails e r \<or> row_key r \<in> set (map row_key (treasuryTransfer st))")
      case True
      with process_log_Some [OF d, of st] show ?thesis by (auto simp: appends_def)
    next
      case False
      with process_log_Some [OF d, of st]
      have "treasuryTransfer (snd (process_log l e st lg)) = treasuryTransfer st @ [r]"
        by simp
      moreover have "distinct (map row_key [r])" by simp
      moreover from False have
        "set (map row_key [r]) \<inter> set (map row_key (treasuryTransfer st)) = {}" by simp
      ultimately show ?thesis unfolding appends_def by blast
    qed
  qed
qed

lemma indexRange_appends:
  assumes "indexRange l e db fromBlk toBlk = Some st"
  shows "\<exists>new. treasuryTransfer st = db @ new \<and> distinct (map row_key new) \<and>
    set (map row_key new) \<inter> set (map row_key db) = {}"
proof -
  from indexRange_lift [of appends l e db fromBlk toBlk st, OF process_log_appends
      appends_refl appends_trans assms]
  show ?thesis by (simp add: appends_def)
qed


subsection \<open>New rows are decoded logs\<close>

lemma built_refl: "built l e a a"
  by (simp add: built_def)

lemma built_trans: "built l e a b \<Longrightarrow> built l e b c \<Longrightarrow> built l e a c"
  unfolding built_def by blast

lemma process_log_built: "built l e st (snd (process_log l e st lg))"
proof (cases "decode_log l e lg")
  case (Inl err)
  then show ?thesis by (simp add: process_log_Inl built_refl)
next
  case (Inr res)
  show ?thesis
  proof (cases res)
    case None
    with Inr show ?thesis by (simp add: process_log_None built_refl)
  next
    case (Some x)
    obtain tok v r where "x = (tok, v, r)" by (cases x)
    with Inr Some have d: "decode_log l e lg = Inr (Some (tok, v, r))" by simp
    from process_log_Some [OF d, of st] d show ?thesis
      unfolding built_def by (auto split: if_splits)
  qed
qed

lemma indexRange_built:
  assumes "indexRange l e db fromBlk toBlk = Some st" and "r \<in> set (treasuryTransfer st)"
  shows "r \<in> set db \<or> (\<exists>lg tok v. decode_log l e lg = Inr (Some (tok, v, r)))"
proof -
  from indexRange_lift [of "built l e" l e db fromBlk toBlk st, OF process_log_built
      built_refl built_trans assms(1)] assms(2)
  show ?thesis by (auto simp: built_def)
qed

subsection \<open>A run on a table that already holds its rows\<close>







subsection \<open>A rejected fetch\<close>

lemma Promise_all_rejected:
  "Inl err \<in> set ps \<Longrightarrow> \<exists>err'. Promise_all ps = Inl err'"
  by (induction ps) (auto split: sum.splits)

lemma run_batch_rejected:
  assumes "r \<in> set batch"
    and "getLogs e (map token_address TOKENS) (fromBlock r) (toBlock r) (topicsFilter l) = Inl err"
  shows "run_batch l e st batch = st"
proof -
  from assms have "Inl err \<in> set (map (\<lambda>r. getLogs e (map token_address TOKENS) (fromBlock r)
      (toBlock r) (topicsFilter l)) batch)" by force
  from Promise_all_rejected [OF this] show ?thesis by (auto simp: run_batch_def)
qed

subsection \<open>The concrete library and provider, evaluated\<close>

lemmas char_eval = char_of_def bit_Suc_0_iff toLowerCase_def toLowerCase_char_def

lemmas addr_defs = addr_proxy_def addr_treasury_def addr_X_def addr_Y_def addr_Z_def

lemma tokenAddrMap_eval:
  "tokenAddrMap =
     [(''0x97a9107c1793bc407d6f527b77e7fff4d812bece'', TOKENS ! 0),
      (''0xc99a6a985ed2cac1ef41640596c5a5f9f4e19ef5'', TOKENS ! 1)]"
  by (simp add: tokenAddrMap_def new_Map_def TOKENS_def char_eval)

lemma PROXY_ADDRESSES_eval:
  "PROXY_ADDRESSES = [''0x3b3adf1422f84254b7fbb0e7ca62bd0865133fe3'']"
  by (simp add: PROXY_ADDRESSES_def char_eval)

lemma TREASURY_ADDRESS_eval:
  "TREASURY_ADDRESS = ''0x245db945c485b68fdc429e4f7085a1761aa4d45d''"
  by (simp add: TREASURY_ADDRESS_def char_eval)

lemma toLowerCase_addrs:
  "toLowerCase addr_proxy = ''0x3b3adf1422f84254b7fbb0e7ca62bd0865133fe3''"
  "toLowerCase addr_treasury = ''0x245db945c485b68fdc429e4f7085a1761aa4d45d''"
  "toLowerCase addr_X = ''0x5aaeb6053f3e94c9b9a09f33669435e7ef1beaed''"
  "toLowerCase addr_Y = ''0xfb6916095ca1df60bb79ce92ce3ea74c37c5d359''"
  "toLowerCase addr_Z = ''0xdbf03b407c01e7cd3cbea99509d93f8dddc8c6fb''"
  by (simp_all add: addr_defs char_eval)

lemma getAddress0_eval:
  "getAddress0 (toLowerCase addr_proxy) = Inr addr_proxy"
  "getAddress0 (toLowerCase addr_treasury) = Inr addr_treasury"
  "getAddress0 (toLowerCase addr_Y) = Inr addr_Y"
  "getAddress0 (toLowerCase addr_Z) = Inr addr_Z"
  "getAddress0 addr_X = Inr addr_X"
  "getAddress0 addr_Y = Inr addr_Y"
  by (simp_all add: getAddress0_def known_addresses_def toLowerCase_addrs)
    (simp_all add: addr_defs)

lemma topicToAddress0:
  assumes "length a = 42" and "take 2 a = ''0x''"
  shows "topicToAddress lib0 (Some (zeroPadValue0 a 32)) = getAddress0 a"
proof -
  from assms(2) append_take_drop_id [of 2 a] have a: "''0x'' @ drop 2 a = a" by simp
  from assms(1) have "slice_last 40 (zeroPadValue0 a 32) = drop 2 a"
    by (simp add: slice_last_def zeroPadValue0_def)
  with a show ?thesis by (simp add: topicToAddress_def lib0_def)
qed

lemma topics_eval:
  "topicToAddress lib0 (Some (zeroPadValue0 (toLowerCase addr_proxy) 32)) = Inr addr_proxy"
  "topicToAddress lib0 (Some (zeroPadValue0 (toLowerCase addr_treasury) 32)) = Inr addr_treasury"
  "topicToAddress lib0 (Some (zeroPadValue0 (toLowerCase addr_Y) 32)) = Inr addr_Y"
  "topicToAddress lib0 (Some (zeroPadValue0 (toLowerCase addr_Z) 32)) = Inr addr_Z"
proof -
  have l: "length (toLowerCase addr_proxy) = 42" "length (toLowerCase addr_treasury) = 42"
    "length (toLowerCase addr_Y) = 42" "length (toLowerCase addr_Z) = 42"
    by (simp_all add: toLowerCase_def addr_defs)
  have t: "take 2 (toLowerCase addr_proxy) = ''0x''" "take 2 (toLowerCase addr_treasury) = ''0x''"
    "take 2 (toLowerCase addr_Y) = ''0x''" "take 2 (toLowerCase addr_Z) = ''0x''"
    by (simp_all add: toLowerCase_addrs)
  show "topicToAddress lib0 (Some (zeroPadValue0 (toLowerCase addr_proxy) 32)) = Inr addr_proxy"
    by (simp only: topicToAddress0 [OF l(1) t(1)] getAddress0_eval)
  show "topicToAddress lib0 (Some (zeroPadValue0 (toLowerCase addr_treasury) 32)) = Inr addr_treasury"
    by (simp only: topicToAddress0 [OF l(2) t(2)] getAddress0_eval)
  show "topicToAddress lib0 (Some (zeroPadValue0 (toLowerCase addr_Y) 32)) = Inr addr_Y"
    by (simp only: topicToAddress0 [OF l(3) t(3)] getAddress0_eval)
  show "topicToAddress lib0 (Some (zeroPadValue0 (toLowerCase addr_Z) 32)) = Inr addr_Z"
    by (simp only: topicToAddress0 [OF l(4) t(4)] getAddress0_eval)
qed

lemma BigInt0_eval:
  "BigInt0 ''0x0000000000000000000000000000000000000000000000000de0b6b3a7640000'' =
     Inr 1000000000000000000"
  "BigInt0 ''0x00000000000000000000000000000000000000000000000006f05b59d3b20000'' =
     Inr 500000000000000000"
  by (simp_all add: BigInt0_def hex_digit_def)

lemma amounts_eval:
  "toString 1000000000000000000 = ''1000000000000000000''"
  "toString 500000000000000000 = ''500000000000000000''"
  "formatUnits0 1000000000000000000 18 = Inr ''1.0''"
  "formatUnits0 500000000000000000 18 = Inr ''0.5''"
  by (simp_all add: formatUnits0_def toString_def digits.simps char_of_def bit_Suc_0_iff)

lemma hashes_differ: "hash_a \<noteq> hash_b" "hash_a \<noteq> hash_c" "hash_b \<noteq> hash_c"
  by (simp_all add: hash_a_def hash_b_def hash_c_def)

lemma decode_log_SomeI:
  assumes "map_of tokenAddrMap (toLowerCase (address lg)) = Some tok"
    and "topicToAddress l (topic_at lg 1) = Inr a"
    and "topicToAddress l (topic_at lg 2) = Inr b"
    and "BigInt l (data lg) = Inr v"
    and "getTransaction e (transactionHash lg) = Inr (Some tx)"
    and "getAddress l (tx_from tx) = Inr s"
    and "computeContributor l a s = Inr c"
    and "formatUnits l v (decimals tok) = Inr fm"
  shows "decode_log l e lg = Inr (Some (tok, v,
    \<lparr>txHash = transactionHash lg, logIndex = index lg, rec_blockNumber = blockNumber lg,
     tokenSymbol = symbol tok, tokenAddress = token_address tok, treasury = b,
     proxyUsed = (toLowerCase a \<in> set PROXY_ADDRESSES), txFrom = s, transferFrom = a,
     transferTo = b, contributor = c, amountRaw = toString v,
     amountFormatted = fm\<rparr>))"
  unfolding decode_log_def
  by (simp only: assms option.case sum.case Let_def)

lemma topic_at_eval:
  "topic_at log_proxy 1 = Some (zeroPadValue0 (toLowerCase addr_proxy) 32)"
  "topic_at log_proxy 2 = Some (zeroPadValue0 (toLowerCase addr_treasury) 32)"
  "topic_at log_direct 1 = Some (zeroPadValue0 (toLowerCase addr_Y) 32)"
  "topic_at log_direct 2 = Some (zeroPadValue0 (toLowerCase addr_treasury) 32)"
  by (simp_all add: topic_at_def log_proxy_def log_direct_def)

lemma contributor_eval:
  "computeContributor lib0 addr_proxy addr_X = Inr addr_X"
  "computeContributor lib0 addr_Y addr_Y = Inr addr_Y"
  by (simp_all add: computeContributor_def toLowerCase_addrs PROXY_ADDRESSES_eval lib0_def
      getAddress0_eval)

lemma log_proxy_steps:
  assumes "getTransaction e = getTransaction0"
  shows "map_of tokenAddrMap (toLowerCase (address log_proxy)) = Some (TOKENS ! 0)"
    and "topicToAddress lib0 (topic_at log_proxy 1) = Inr addr_proxy"
    and "topicToAddress lib0 (topic_at log_proxy 2) = Inr addr_treasury"
    and "BigInt lib0 (data log_proxy) = Inr 1000000000000000000"
    and "getTransaction e (transactionHash log_proxy) = Inr (Some \<lparr>tx_from = addr_X\<rparr>)"
    and "getAddress lib0 (tx_from \<lparr>tx_from = addr_X\<rparr>) = Inr addr_X"
    and "computeContributor lib0 addr_proxy addr_X = Inr addr_X"
    and "formatUnits lib0 1000000000000000000 (decimals (TOKENS ! 0)) = Inr ''1.0''"
proof -
  show "map_of tokenAddrMap (toLowerCase (address log_proxy)) = Some (TOKENS ! 0)"
    by (simp add: tokenAddrMap_eval log_proxy_def char_eval)
  show "topicToAddress lib0 (topic_at log_proxy 1) = Inr addr_proxy"
    by (simp only: topic_at_eval topics_eval)
  show "topicToAddress lib0 (topic_at log_proxy 2) = Inr addr_treasury"
    by (simp only: topic_at_eval topics_eval)
  show "BigInt lib0 (data log_proxy) = Inr 1000000000000000000"
    by (simp add: lib0_def log_proxy_def BigInt0_eval)
  show "getTransaction e (transactionHash log_proxy) = Inr (Some \<lparr>tx_from = addr_X\<rparr>)"
    by (simp add: assms getTransaction0_def log_proxy_def)
  show "getAddress lib0 (tx_from \<lparr>tx_from = addr_X\<rparr>) = Inr addr_X"
    by (simp add: lib0_def getAddress0_eval)
  show "computeContributor lib0 addr_proxy addr_X = Inr addr_X"
    by (rule contributor_eval(1))
  show "formatUnits lib0 1000000000000000000 (decimals (TOKENS ! 0)) = Inr ''1.0''"
    by (simp add: lib0_def TOKENS_def amounts_eval)
qed

lemma decode_log_proxy:
  assumes "getTransaction e = getTransaction0"
  shows "decode_log lib0 e log_proxy = Inr (Some (TOKENS ! 0, 1000000000000000000, row_proxy))"
proof -
  have tok: "map_of tokenAddrMap (toLowerCase (address log_proxy)) = Some (TOKENS ! 0)"
    by (simp add: tokenAddrMap_eval log_proxy_def char_eval)
  have t1: "topicToAddress lib0 (topic_at log_proxy 1) = Inr addr_proxy"
    by (simp only: topic_at_eval topics_eval)
  have t2: "topicToAddress lib0 (topic_at log_proxy 2) = Inr addr_treasury"
    by (simp only: topic_at_eval topics_eval)
  have v: "BigInt lib0 (data log_proxy) = Inr 1000000000000000000"
    by (simp add: lib0_def log_proxy_def BigInt0_eval)
  have tx: "getTransaction e (transactionHash log_proxy) = Inr (Some \<lparr>tx_from = addr_X\<rparr>)"
    by (simp add: assms getTransaction0_def log_proxy_def)
  have s: "getAddress lib0 (tx_from \<lparr>tx_from = addr_X\<rparr>) = Inr addr_X"
    by (simp add: lib0_def getAddress0_eval)
  have "row_proxy =
    \<lparr>txHash = transactionHash log_proxy, logIndex = index log_proxy,
     rec_blockNumber = blockNumber log_proxy,
     tokenSymbol = symbol (TOKENS ! 0), tokenAddress = token_address (TOKENS ! 0),
     treasury = addr_treasury,
     proxyUsed = (toLowerCase addr_proxy \<in> set PROXY_ADDRESSES), txFrom = addr_X,
     transferFrom = addr_proxy, transferTo = addr_treasury, contributor = addr_X,
     amountRaw = toString 1000000000000000000,
     amountFormatted = ''1.0''\<rparr>"
    by (simp add: row_proxy_def log_proxy_def TOKENS_def toLowerCase_addrs
        PROXY_ADDRESSES_eval amounts_eval)
  moreover have "formatUnits lib0 1000000000000000000 (decimals (TOKENS ! 0)) = Inr ''1.0''"
    by (simp add: lib0_def TOKENS_def amounts_eval)
  ultimately show ?thesis
    using decode_log_SomeI [OF tok t1 t2 v tx s contributor_eval(1)] by simp
qed

lemma decode_log_direct:
  assumes "getTransaction e = getTransaction0"
  shows "decode_log lib0 e log_direct = Inr (Some (TOKENS ! 1, 500000000000000000, row_direct))"
proof -
  have tok: "map_of tokenAddrMap (toLowerCase (address log_direct)) = Some (TOKENS ! 1)"
    by (simp add: tokenAddrMap_eval log_direct_def char_eval)
  have t1: "topicToAddress lib0 (topic_at log_direct 1) = Inr addr_Y"
    by (simp only: topic_at_eval topics_eval)
  have t2: "topicToAddress lib0 (topic_at log_direct 2) = Inr addr_treasury"
    by (simp only: topic_at_eval topics_eval)
  have v: "BigInt lib0 (data log_direct) = Inr 500000000000000000"
    by (simp add: lib0_def log_direct_def BigInt0_eval)
  have tx: "getTransaction e (transactionHash log_direct) = Inr (Some \<lparr>tx_from = addr_Y\<rparr>)"
    by (simp add: assms getTransaction0_def log_direct_def hashes_differ [symmetric])
  have s: "getAddress lib0 (tx_from \<lparr>tx_from = addr_Y\<rparr>) = Inr addr_Y"
    by (simp add: lib0_def getAddress0_eval)
  have "row_direct =
    \<lparr>txHash = transactionHash log_direct, logIndex = index log_direct,
     rec_blockNumber = blockNumber log_direct,
     tokenSymbol = symbol (TOKENS ! 1), tokenAddress = token_address (TOKENS ! 1),
     treasury = addr_treasury,
     proxyUsed = (toLowerCase addr_Y \<in> set PROXY_ADDRESSES), txFrom = addr_Y,
     transferFrom = addr_Y, transferTo = addr_treasury, contributor = addr_Y,
     amountRaw = toString 500000000000000000,
     amountFormatted = ''0.5''\<rparr>"
    by (simp add: row_direct_def log_direct_def TOKENS_def toLowerCase_addrs
        PROXY_ADDRESSES_eval amounts_eval)
  moreover have "formatUnits lib0 500000000000000000 (decimals (TOKENS ! 1)) = Inr ''0.5''"
    by (simp add: lib0_def TOKENS_def amounts_eval)
  ultimately show ?thesis
    using decode_log_SomeI [OF tok t1 t2 v tx s contributor_eval(2)] by simp
qed

lemma topic_at_elsewhere:
  "topic_at log_elsewhere 1 = Some (zeroPadValue0 (toLowerCase addr_Y) 32)"
  "topic_at log_elsewhere 2 = Some (zeroPadValue0 (toLowerCase addr_Z) 32)"
  by (simp_all add: topic_at_def log_elsewhere_def)

lemma decode_log_elsewhere:
  assumes "getTransaction e = getTransaction0"
  shows "decode_log lib0 e log_elsewhere =
    Inr (Some (TOKENS ! 0, 1000000000000000000, row_elsewhere))"
proof -
  have tok: "map_of tokenAddrMap (toLowerCase (address log_elsewhere)) = Some (TOKENS ! 0)"
    by (simp add: tokenAddrMap_eval log_elsewhere_def char_eval)
  have t1: "topicToAddress lib0 (topic_at log_elsewhere 1) = Inr addr_Y"
    by (simp only: topic_at_elsewhere topics_eval)
  have t2: "topicToAddress lib0 (topic_at log_elsewhere 2) = Inr addr_Z"
    by (simp only: topic_at_elsewhere topics_eval)
  have v: "BigInt lib0 (data log_elsewhere) = Inr 1000000000000000000"
    by (simp add: lib0_def log_elsewhere_def BigInt0_eval)
  have tx: "getTransaction e (transactionHash log_elsewhere) = Inr (Some \<lparr>tx_from = addr_Y\<rparr>)"
    by (simp add: assms getTransaction0_def log_elsewhere_def hashes_differ [symmetric])
  have s: "getAddress lib0 (tx_from \<lparr>tx_from = addr_Y\<rparr>) = Inr addr_Y"
    by (simp add: lib0_def getAddress0_eval)
  have "row_elsewhere =
    \<lparr>txHash = transactionHash log_elsewhere, logIndex = index log_elsewhere,
     rec_blockNumber = blockNumber log_elsewhere,
     tokenSymbol = symbol (TOKENS ! 0), tokenAddress = token_address (TOKENS ! 0),
     treasury = addr_Z,
     proxyUsed = (toLowerCase addr_Y \<in> set PROXY_ADDRESSES), txFrom = addr_Y,
     transferFrom = addr_Y, transferTo = addr_Z, contributor = addr_Y,
     amountRaw = toString 1000000000000000000,
     amountFormatted = ''1.0''\<rparr>"
    by (simp add: row_elsewhere_def log_elsewhere_def TOKENS_def toLowerCase_addrs
        PROXY_ADDRESSES_eval amounts_eval)
  moreover have "formatUnits lib0 1000000000000000000 (decimals (TOKENS ! 0)) = Inr ''1.0''"
    by (simp add: lib0_def TOKENS_def amounts_eval)
  ultimately show ?thesis
    using decode_log_SomeI [OF tok t1 t2 v tx s contributor_eval(2)] by simp
qed

lemma symbols_eval: "symbol (TOKENS ! 0) = ''AXS''" "symbol (TOKENS ! 1) = ''WETH''"
  "symbol (TOKENS ! Suc 0) = ''WETH''"
  by (simp_all add: TOKENS_def)

lemma row_keys_eval:
  "row_key row_proxy = (hash_a, 0)" "row_key row_direct = (hash_b, 3)"
  by (simp_all add: row_key_def row_proxy_def row_direct_def)

lemma block_numbers: "blockNumber log_proxy = 100" "blockNumber log_direct = 500"
  by (simp_all add: log_proxy_def log_direct_def)

lemma env0_eval:
  "getTransaction env0 = getTransaction0"
  "upsertFails env0 r = False"
  "getLogs env0 a 0 399 t = Inr [log_proxy]"
  "getLogs env0 a 400 799 t = Inr [log_direct]"
  by (simp_all add: env0_def logs_between_def block_numbers)

lemma env_fail_eval:
  "getTransaction env_fail = getTransaction0"
  "upsertFails env_fail r = False"
  "getLogs env_fail a 0 399 t = Inl ProviderError"
  "getLogs env_fail a 400 799 t = Inr [log_direct]"
  by (simp_all add: env_fail_def env0_def logs_between_def block_numbers)

lemma env_down_eval:
  "getTransaction env_down = getTransaction0"
  "upsertFails env_down r = True"
  "getLogs env_down a 0 399 t = Inr [log_proxy]"
  "getLogs env_down a 400 799 t = Inr [log_direct]"
  by (simp_all add: env_down_def env0_def logs_between_def block_numbers)

lemma env_loose_eval:
  "getTransaction env_loose = getTransaction0"
  "upsertFails env_loose r = False"
  "getLogs env_loose a 100 100 t = Inr [log_elsewhere]"
  by (simp_all add: env_loose_def env0_def logs_between_def log_elsewhere_def)

lemma ranges_eval:
  "buildRangesForward 0 799 BLOCK_SPAN =
     Some [\<lparr>fromBlock = 0, toBlock = 399\<rparr>, \<lparr>fromBlock = 400, toBlock = 799\<rparr>]"
  "buildRangesForward 400 799 BLOCK_SPAN = Some [\<lparr>fromBlock = 400, toBlock = 799\<rparr>]"
  "buildRangesForward 100 100 BLOCK_SPAN = Some [\<lparr>fromBlock = 100, toBlock = 100\<rparr>]"
  by (simp_all add: buildRangesForward_def BLOCK_SPAN_def buildRangesForward_loop.simps
      js_small)

lemma chunks_eval:
  "chunkArray [a, b] MAX_CONCURRENCY = Some [[a, b]]"
  "chunkArray [a] MAX_CONCURRENCY = Some [[a]]"
  by (simp_all add: chunkArray_def MAX_CONCURRENCY_def chunkArray_loop.simps)

lemma run_fail_0_799:
  "indexRange lib0 env_fail [] 0 799 =
     Some \<lparr>treasuryTransfer = [], totalWeiByToken = [], totalRecords = 0\<rparr>"
  by (simp add: indexRange_def ranges_eval chunks_eval run_batch_def env_fail_eval)

lemma run_fail_400_799:
  "indexRange lib0 env_fail [] 400 799 =
     Some \<lparr>treasuryTransfer = [row_direct],
            totalWeiByToken = [(''WETH'', 500000000000000000)], totalRecords = 1\<rparr>"
  by (simp add: indexRange_def ranges_eval chunks_eval run_batch_def env_fail_eval
      process_log_Some [OF decode_log_direct [OF env_fail_eval(1)]] symbols_eval js_small)



lemma run_loose_100:
  "indexRange lib0 env_loose [] 100 100 =
     Some \<lparr>treasuryTransfer = [row_elsewhere],
            totalWeiByToken = [(''AXS'', 1000000000000000000)], totalRecords = 1\<rparr>"
  by (simp add: indexRange_def ranges_eval chunks_eval run_batch_def env_loose_eval
      process_log_Some [OF decode_log_elsewhere [OF env_loose_eval(1)]] symbols_eval js_small)

subsection \<open>Claims about batches and totals\<close>

text \<open>
  Claim C2 says that when the fetch of one window of a group fails, the other windows
  of the group are still processed. In the source all fetches of a group are awaited
  with one \<^verbatim>\<open>Promise.all\<close> inside the \<^verbatim>\<open>try\<close>, so one rejection sends the whole group
  to the \<^verbatim>\<open>catch\<close>. Here the range \<open>[0, 799]\<close> is one group of two windows; the fetch
  of the first window is rejected, the fetch of the second returns a log that a run
  over the second window alone stores, and the run over the group stores nothing.
\<close>

theorem rejected_fetch_counterexample:
  "buildRangesForward 0 799 BLOCK_SPAN =
     Some [\<lparr>fromBlock = 0, toBlock = 399\<rparr>, \<lparr>fromBlock = 400, toBlock = 799\<rparr>]
   \<and> chunkArray [\<lparr>fromBlock = 0, toBlock = 399\<rparr>, \<lparr>fromBlock = 400, toBlock = 799\<rparr>]
       MAX_CONCURRENCY =
     Some [[\<lparr>fromBlock = 0, toBlock = 399\<rparr>, \<lparr>fromBlock = 400, toBlock = 799\<rparr>]]
   \<and> getLogs env_fail (map token_address TOKENS) 0 399 (topicsFilter lib0) = Inl ProviderError
   \<and> getLogs env_fail (map token_address TOKENS) 400 799 (topicsFilter lib0) = Inr [log_direct]
   \<and> indexRange lib0 env_fail [] 400 799 =
     Some \<lparr>treasuryTransfer = [row_direct],
            totalWeiByToken = [(''WETH'', 500000000000000000)], totalRecords = 1\<rparr>
   \<and> indexRange lib0 env_fail [] 0 799 =
     Some \<lparr>treasuryTransfer = [], totalWeiByToken = [], totalRecords = 0\<rparr>"
  by (simp only: ranges_eval chunks_eval env_fail_eval run_fail_400_799 run_fail_0_799
      simp_thms)

text \<open>
  Claim C2 as amended: when the fetch of one window of a group is rejected, the group
  leaves the state as it was (no row, no total, no count from any of its windows), and
  the run goes on: the groups before and after it are processed as if the group were
  not there.
\<close>

theorem rejected_fetch_drops_batch:
  assumes "r \<in> set batch"
    and "getLogs e (map token_address TOKENS) (fromBlock r) (toBlock r) (topicsFilter l) = Inl err"
  shows "run_batch l e st batch = st
    \<and> foldl (run_batch l e) st0 (before @ batch # after) =
      foldl (run_batch l e) st0 (before @ after)"
  using run_batch_rejected [OF assms] by simp

theorem rejected_fetch_drops_batch_witness:
  "\<lparr>fromBlock = 0, toBlock = 399\<rparr> \<in>
      set [\<lparr>fromBlock = 0, toBlock = 399\<rparr>, \<lparr>fromBlock = 400, toBlock = 799\<rparr>]
   \<and> getLogs env_fail (map token_address TOKENS) 0 399 (topicsFilter lib0) = Inl ProviderError
   \<and> run_batch lib0 env_fail
        \<lparr>treasuryTransfer = [row_proxy], totalWeiByToken = [], totalRecords = 0\<rparr>
        [\<lparr>fromBlock = 0, toBlock = 399\<rparr>, \<lparr>fromBlock = 400, toBlock = 799\<rparr>] =
      \<lparr>treasuryTransfer = [row_proxy], totalWeiByToken = [], totalRecords = 0\<rparr>"
proof -
  have 1: "\<lparr>fromBlock = 0, toBlock = 399\<rparr> \<in>
      set [\<lparr>fromBlock = 0, toBlock = 399\<rparr>, \<lparr>fromBlock = 400, toBlock = 799\<rparr>]" by simp
  have 2: "getLogs env_fail (map token_address TOKENS)
      (fromBlock \<lparr>fromBlock = 0, toBlock = 399\<rparr>) (toBlock \<lparr>fromBlock = 0, toBlock = 399\<rparr>)
      (topicsFilter lib0) = Inl ProviderError"
    by (simp add: env_fail_eval)
  from rejected_fetch_drops_batch [OF 1 2] 1 2 show ?thesis by simp
qed

text \<open>
  Claim C3 says that the token's total and the record count change exactly when the
  write inserts a new row. In the source the total is increased before the write
  (lines 323-325), and \<^verbatim>\<open>totalRecords += 1\<close> follows every \<^verbatim>\<open>upsert\<close> call that does
  not throw. First conjunct: the row of \<open>log_proxy\<close> is already stored, and both the
  total and the count grow. Second conjunct: the database rejects the write, and the
  total grows.
\<close>

theorem totals_counterexample:
  "row_key row_proxy = (transactionHash log_proxy, index log_proxy)
   \<and> process_log lib0 env0
       \<lparr>treasuryTransfer = [row_proxy], totalWeiByToken = [], totalRecords = 0\<rparr> log_proxy =
     (None, \<lparr>treasuryTransfer = [row_proxy],
             totalWeiByToken = [(''AXS'', 1000000000000000000)], totalRecords = 1\<rparr>)
   \<and> process_log lib0 env_down
       \<lparr>treasuryTransfer = [], totalWeiByToken = [], totalRecords = 0\<rparr> log_proxy =
     (None, \<lparr>treasuryTransfer = [],
             totalWeiByToken = [(''AXS'', 1000000000000000000)], totalRecords = 0\<rparr>)"
proof -
  have "row_key row_proxy = (transactionHash log_proxy, index log_proxy)"
    by (simp add: row_keys_eval log_proxy_def)
  moreover have "process_log lib0 env0
       \<lparr>treasuryTransfer = [row_proxy], totalWeiByToken = [], totalRecords = 0\<rparr> log_proxy =
     (None, \<lparr>treasuryTransfer = [row_proxy],
             totalWeiByToken = [(''AXS'', 1000000000000000000)], totalRecords = 1\<rparr>)"
    by (simp add: process_log_Some [OF decode_log_proxy [OF env0_eval(1)]]
        env0_eval symbols_eval js_small)
  moreover have "process_log lib0 env_down
       \<lparr>treasuryTransfer = [], totalWeiByToken = [], totalRecords = 0\<rparr> log_proxy =
     (None, \<lparr>treasuryTransfer = [],
             totalWeiByToken = [(''AXS'', 1000000000000000000)], totalRecords = 0\<rparr>)"
    by (simp add: process_log_Some [OF decode_log_proxy [OF env_down_eval(1)]]
        env_down_eval symbols_eval js_small)
  ultimately show ?thesis by (simp only: simp_thms)
qed

text \<open>
  Claim C3 as amended. Take a log for which every call of the loop body before the
  write returns: the token is tracked, both topics decode to addresses, the amount
  \<open>v\<close> parses, the transaction is found, its sender is normalised, the contributor is
  resolved and the amount is formatted. Then the body builds a row \<open>r\<close> with the key of
  the log and \<open>amountRaw r\<close> the decimal string of \<open>v\<close>, and runs to its end without an
  exception; the total of the token's symbol is increased by \<open>v\<close>, whatever the write
  does, and no other total changes; the record count is increased by one (\<^verbatim>\<open>+= 1\<close>,
  exact below \<open>2^53\<close>) exactly when the write is not rejected, be the key new or
  already stored; a row is added exactly when the write is not rejected and the key is
  new.
\<close>

theorem process_log_totals:
  assumes "map_of tokenAddrMap (toLowerCase (address lg)) = Some tok"
    and "topicToAddress l (topic_at lg 1) = Inr a"
    and "topicToAddress l (topic_at lg 2) = Inr b"
    and "BigInt l (data lg) = Inr v"
    and "getTransaction e (transactionHash lg) = Inr (Some tx)"
    and "getAddress l (tx_from tx) = Inr s"
    and "computeContributor l a s = Inr c"
    and "formatUnits l v (decimals tok) = Inr fm"
  shows "\<exists>r st'. decode_log l e lg = Inr (Some (tok, v, r))
    \<and> row_key r = (transactionHash lg, index lg)
    \<and> amountRaw r = toString v
    \<and> process_log l e st lg = (None, st')
    \<and> map_of (totalWeiByToken st') (symbol tok) =
        Some ((case map_of (totalWeiByToken st) (symbol tok) of None \<Rightarrow> 0 | Some p \<Rightarrow> p) + v)
    \<and> (\<forall>s'. s' \<noteq> symbol tok \<longrightarrow>
          map_of (totalWeiByToken st') s' = map_of (totalWeiByToken st) s')
    \<and> totalRecords st' =
        (if upsertFails e r then totalRecords st else js_add (totalRecords st) 1)
    \<and> (\<bar>totalRecords st\<bar> < 2 ^ 53 \<longrightarrow> js_add (totalRecords st) 1 = totalRecords st + 1)
    \<and> treasuryTransfer st' =
        (if upsertFails e r \<or> row_key r \<in> set (map row_key (treasuryTransfer st))
         then treasuryTransfer st else treasuryTransfer st @ [r])"
proof -
  from decode_log_SomeI [OF assms] obtain r where
    d: "decode_log l e lg = Inr (Some (tok, v, r))" by blast
  have j: "\<bar>totalRecords st\<bar> < 2 ^ 53 \<longrightarrow> js_add (totalRecords st) 1 = totalRecords st + 1"
    by (simp add: js_small)
  define st' where "st' = snd (process_log l e st lg)"
  have p: "process_log l e st lg = (None, st')"
    and t: "totalWeiByToken st' = AList.update (symbol tok)
      ((case map_of (totalWeiByToken st) (symbol tok) of None \<Rightarrow> 0 | Some p \<Rightarrow> p) + v)
      (totalWeiByToken st)"
    and n: "totalRecords st' =
      (if upsertFails e r then totalRecords st else js_add (totalRecords st) 1)"
    and rows: "treasuryTransfer st' =
      (if upsertFails e r \<or> row_key r \<in> set (map row_key (treasuryTransfer st))
       then treasuryTransfer st else treasuryTransfer st @ [r])"
    unfolding st'_def by (simp_all add: process_log_Some [OF d])
  from t have m: "map_of (totalWeiByToken st') (symbol tok) =
      Some ((case map_of (totalWeiByToken st) (symbol tok) of None \<Rightarrow> 0 | Some p \<Rightarrow> p) + v)"
    and o: "\<forall>s'. s' \<noteq> symbol tok \<longrightarrow>
      map_of (totalWeiByToken st') s' = map_of (totalWeiByToken st) s'"
    by (simp_all add: update_conv')
  from d decode_log_key [OF d] decode_log_fieldsD(9) [OF d] p m o n j rows
  show ?thesis by blast
qed

theorem process_log_totals_witness:
  "map_of tokenAddrMap (toLowerCase (address log_proxy)) = Some (TOKENS ! 0)
   \<and> topicToAddress lib0 (topic_at log_proxy 1) = Inr addr_proxy
   \<and> topicToAddress lib0 (topic_at log_proxy 2) = Inr addr_treasury
   \<and> BigInt lib0 (data log_proxy) = Inr 1000000000000000000
   \<and> getTransaction env0 (transactionHash log_proxy) = Inr (Some \<lparr>tx_from = addr_X\<rparr>)
   \<and> getAddress lib0 (tx_from \<lparr>tx_from = addr_X\<rparr>) = Inr addr_X
   \<and> computeContributor lib0 addr_proxy addr_X = Inr addr_X
   \<and> formatUnits lib0 1000000000000000000 (decimals (TOKENS ! 0)) = Inr ''1.0''
   \<and> (\<exists>st'. process_log lib0 env0
         \<lparr>treasuryTransfer = [row_proxy], totalWeiByToken = [(''AXS'', 5)], totalRecords = 7\<rparr>
         log_proxy = (None, st')
       \<and> map_of (totalWeiByToken st') ''AXS'' = Some 1000000000000000005
       \<and> map_of (totalWeiByToken st') ''WETH'' = None
       \<and> totalRecords st' = 8
       \<and> treasuryTransfer st' = [row_proxy])"
proof -
  note steps = log_proxy_steps [OF env0_eval(1)]
  note d = decode_log_proxy [OF env0_eval(1)]
  from process_log_totals [OF steps,
      of "\<lparr>treasuryTransfer = [row_proxy], totalWeiByToken = [(''AXS'', 5)], totalRecords = 7\<rparr>"]
  obtain r st' where dr: "decode_log lib0 env0 log_proxy = Inr (Some (TOKENS ! 0, 1000000000000000000, r))"
    and p: "process_log lib0 env0
         \<lparr>treasuryTransfer = [row_proxy], totalWeiByToken = [(''AXS'', 5)], totalRecords = 7\<rparr>
         log_proxy = (None, st')"
    and m: "map_of (totalWeiByToken st') (symbol (TOKENS ! 0)) =
        Some ((case map_of (totalWeiByToken
          \<lparr>treasuryTransfer = [row_proxy], totalWeiByToken = [(''AXS'', 5)], totalRecords = 7\<rparr>)
          (symbol (TOKENS ! 0)) of None \<Rightarrow> 0 | Some p \<Rightarrow> p) + 1000000000000000000)"
    and o: "\<forall>s'. s' \<noteq> symbol (TOKENS ! 0) \<longrightarrow> map_of (totalWeiByToken st') s' =
        map_of (totalWeiByToken
          \<lparr>treasuryTransfer = [row_proxy], totalWeiByToken = [(''AXS'', 5)], totalRecords = 7\<rparr>) s'"
    and n: "totalRecords st' = (if upsertFails env0 r then totalRecords
          \<lparr>treasuryTransfer = [row_proxy], totalWeiByToken = [(''AXS'', 5)], totalRecords = 7\<rparr>
        else js_add (totalRecords
          \<lparr>treasuryTransfer = [row_proxy], totalWeiByToken = [(''AXS'', 5)], totalRecords = 7\<rparr>) 1)"
    and rows: "treasuryTransfer st' =
        (if upsertFails env0 r \<or> row_key r \<in> set (map row_key (treasuryTransfer
          \<lparr>treasuryTransfer = [row_proxy], totalWeiByToken = [(''AXS'', 5)], totalRecords = 7\<rparr>))
         then treasuryTransfer
          \<lparr>treasuryTransfer = [row_proxy], totalWeiByToken = [(''AXS'', 5)], totalRecords = 7\<rparr>
         else treasuryTransfer
          \<lparr>treasuryTransfer = [row_proxy], totalWeiByToken = [(''AXS'', 5)], totalRecords = 7\<rparr> @ [r])"
    by blast
  from dr d have r: "r = row_proxy" by simp
  from m have 1: "map_of (totalWeiByToken st') ''AXS'' = Some 1000000000000000005"
    by (simp add: symbols_eval)
  from n have 2: "totalRecords st' = 8" by (simp add: env0_eval js_small)
  from rows r have 3: "treasuryTransfer st' = [row_proxy]" by simp
  from o have 4: "map_of (totalWeiByToken st') ''WETH'' = None"
    by (simp add: symbols_eval)
  from p 1 2 3 4 have "\<exists>st'. process_log lib0 env0
         \<lparr>treasuryTransfer = [row_proxy], totalWeiByToken = [(''AXS'', 5)], totalRecords = 7\<rparr>
         log_proxy = (None, st')
       \<and> map_of (totalWeiByToken st') ''AXS'' = Some 1000000000000000005
       \<and> map_of (totalWeiByToken st') ''WETH'' = None
       \<and> totalRecords st' = 8
       \<and> treasuryTransfer st' = [row_proxy]" by blast
  with steps show ?thesis by (simp only: simp_thms)
qed

subsection \<open>Claims about the stored rows\<close>




subsection \<open>Claims about attribution and the stored fields\<close>

lemma proxy_member_ci:
  "(\<exists>p \<in> set PROXY_ADDRESSES. toLowerCase p = toLowerCase a) =
   (toLowerCase a \<in> set PROXY_ADDRESSES)"
proof -
  have "toLowerCase ''0x3b3adf1422f84254b7fbb0e7ca62bd0865133fe3'' =
      ''0x3b3adf1422f84254b7fbb0e7ca62bd0865133fe3''"
    by (simp add: char_eval)
  then show ?thesis by (auto simp: PROXY_ADDRESSES_eval)
qed

lemma decode_log_attribution:
  assumes idem: "\<forall>a b. getAddress l a = Inr b \<longrightarrow> getAddress l b = Inr b"
    and d: "decode_log l e lg = Inr (Some (tok, v, r))"
  shows "if \<exists>p \<in> set PROXY_ADDRESSES. toLowerCase p = toLowerCase (transferFrom r)
    then contributor r = txFrom r \<and> proxyUsed r
    else contributor r = transferFrom r \<and> \<not> proxyUsed r"
proof -
  from decode_log_fieldsD(10) [OF d] obtain tx :: TransactionResponse where
    s: "getAddress l (tx_from tx) = Inr (txFrom r)" by blast
  note c = decode_log_fieldsD(4) [OF d] and p = decode_log_fieldsD(5) [OF d]
  from idem s have "getAddress l (txFrom r) = Inr (txFrom r)" by blast
  with c p show ?thesis
    by (auto simp: computeContributor_def Let_def proxy_member_ci split: if_splits)
qed

text \<open>
  Claim C5. \<^verbatim>\<open>ethers.getAddress\<close> returns an address in its normal form, and the normal
  form of a normal form is itself: this is the hypothesis on the library. For every log
  that decodes to a row \<open>r\<close> (tracked token, transaction found): \<open>transferFrom r\<close> is the
  event's sender decoded from \<^verbatim>\<open>topics[1]\<close>, \<open>txFrom r\<close> is the normal form of the
  transaction's sender, and if \<open>transferFrom r\<close> equals a known proxy address up to the
  case of its letters then \<open>contributor r = txFrom r\<close> and \<open>proxyUsed r\<close>, otherwise
  \<open>contributor r = transferFrom r\<close> and \<open>proxyUsed r\<close> is false. The same holds of every
  row that a run adds to the table.
\<close>

theorem contributor_attribution:
  assumes "\<forall>a b. getAddress l a = Inr b \<longrightarrow> getAddress l b = Inr b"
  shows "(decode_log l e lg = Inr (Some (tok, v, r)) \<longrightarrow>
      topicToAddress l (topic_at lg 1) = Inr (transferFrom r)
      \<and> (\<exists>tx. getTransaction e (transactionHash lg) = Inr (Some tx)
            \<and> getAddress l (tx_from tx) = Inr (txFrom r))
      \<and> (if \<exists>p \<in> set PROXY_ADDRESSES. toLowerCase p = toLowerCase (transferFrom r)
         then contributor r = txFrom r \<and> proxyUsed r
         else contributor r = transferFrom r \<and> \<not> proxyUsed r))
    \<and> (indexRange l e db fromBlk toBlk = Some st \<longrightarrow>
      (\<forall>r' \<in> set (treasuryTransfer st). r' \<in> set db \<or>
         (if \<exists>p \<in> set PROXY_ADDRESSES. toLowerCase p = toLowerCase (transferFrom r')
          then contributor r' = txFrom r' \<and> proxyUsed r'
          else contributor r' = transferFrom r' \<and> \<not> proxyUsed r')))"
proof (intro conjI impI ballI)
  assume d: "decode_log l e lg = Inr (Some (tok, v, r))"
  from decode_log_fieldsD(1) [OF d]
  show "topicToAddress l (topic_at lg 1) = Inr (transferFrom r)" .
  from decode_log_fieldsD(10) [OF d]
  show "\<exists>tx. getTransaction e (transactionHash lg) = Inr (Some tx)
      \<and> getAddress l (tx_from tx) = Inr (txFrom r)" .
  from decode_log_attribution [OF assms d]
  show "if \<exists>p \<in> set PROXY_ADDRESSES. toLowerCase p = toLowerCase (transferFrom r)
    then contributor r = txFrom r \<and> proxyUsed r
    else contributor r = transferFrom r \<and> \<not> proxyUsed r" .
next
  fix r'
  assume run: "indexRange l e db fromBlk toBlk = Some st"
    and r': "r' \<in> set (treasuryTransfer st)"
  show "r' \<in> set db \<or>
    (if \<exists>p \<in> set PROXY_ADDRESSES. toLowerCase p = toLowerCase (transferFrom r')
     then contributor r' = txFrom r' \<and> proxyUsed r'
     else contributor r' = transferFrom r' \<and> \<not> proxyUsed r')"
  proof (cases "r' \<in> set db")
    case True
    then show ?thesis by simp
  next
    case False
    with indexRange_built [OF run r'] obtain lg' tok' v' where
      "decode_log l e lg' = Inr (Some (tok', v', r'))" by blast
    from decode_log_attribution [OF assms this] show ?thesis by simp
  qed
qed

lemma getAddress0_self:
  "getAddress0 addr_proxy = Inr addr_proxy" "getAddress0 addr_treasury = Inr addr_treasury"
  "getAddress0 addr_X = Inr addr_X" "getAddress0 addr_Y = Inr addr_Y"
  "getAddress0 addr_Z = Inr addr_Z"
  by (simp_all add: getAddress0_def known_addresses_def toLowerCase_addrs)
    (simp_all add: addr_defs)

lemma getAddress0_known: "c \<in> set known_addresses \<Longrightarrow> getAddress0 c = Inr c"
  by (auto simp: known_addresses_def getAddress0_self)

lemma getAddress0_idem: "getAddress0 a = Inr b \<Longrightarrow> getAddress0 b = Inr b"
proof -
  assume "getAddress0 a = Inr b"
  then have "find (\<lambda>c. a = c \<or> a = toLowerCase c) known_addresses = Some b"
    by (auto simp: getAddress0_def split: option.splits)
  then have "b \<in> set known_addresses" by (auto simp: find_Some_iff)
  then show ?thesis by (rule getAddress0_known)
qed

theorem contributor_attribution_witness:
  "decode_log lib0 env0 log_proxy = Inr (Some (TOKENS ! 0, 1000000000000000000, row_proxy))
   \<and> transferFrom row_proxy = addr_proxy \<and> txFrom row_proxy = addr_X
   \<and> contributor row_proxy = addr_X \<and> proxyUsed row_proxy
   \<and> decode_log lib0 env0 log_direct = Inr (Some (TOKENS ! 1, 500000000000000000, row_direct))
   \<and> transferFrom row_direct = addr_Y
   \<and> contributor row_direct = addr_Y \<and> \<not> proxyUsed row_direct"
proof -
  have idem: "\<forall>a b. getAddress lib0 a = Inr b \<longrightarrow> getAddress lib0 b = Inr b"
    by (simp add: lib0_def getAddress0_idem)
  note d1 = decode_log_proxy [OF env0_eval(1)]
  note d2 = decode_log_direct [OF env0_eval(1)]
  have t: "transferFrom row_proxy = addr_proxy" "transferFrom row_direct = addr_Y"
    by (simp_all add: row_proxy_def row_direct_def)
  have m1: "\<exists>p \<in> set PROXY_ADDRESSES. toLowerCase p = toLowerCase (transferFrom row_proxy)"
    unfolding proxy_member_ci t by (simp add: toLowerCase_addrs PROXY_ADDRESSES_eval)
  have m2: "\<not> (\<exists>p \<in> set PROXY_ADDRESSES. toLowerCase p = toLowerCase (transferFrom row_direct))"
    unfolding proxy_member_ci t by (simp add: toLowerCase_addrs PROXY_ADDRESSES_eval)
  from contributor_attribution [OF idem, of env0 log_proxy "TOKENS ! 0"
      1000000000000000000 row_proxy, THEN conjunct1, rule_format, OF d1] m1
  have 1: "contributor row_proxy = txFrom row_proxy \<and> proxyUsed row_proxy"
    by simp
  from contributor_attribution [OF idem, of env0 log_direct "TOKENS ! 1"
      500000000000000000 row_direct, THEN conjunct1, rule_format, OF d2] m2
  have 2: "contributor row_direct = transferFrom row_direct \<and> \<not> proxyUsed row_direct"
    by simp
  have "transferFrom row_proxy = addr_proxy" "txFrom row_proxy = addr_X"
    "transferFrom row_direct = addr_Y"
    by (simp_all add: row_proxy_def row_direct_def)
  with 1 2 d1 d2 show ?thesis by simp
qed

text \<open>
  Claim C10. For every log that decodes to a row \<open>r\<close>, the field \<open>treasury r\<close> is what
  \<^verbatim>\<open>getAddress\<close> returns on \<^verbatim>\<open>0x\<close> followed by the last 40 hex digits (20 bytes) of
  \<^verbatim>\<open>topics[2]\<close>, and it equals \<open>transferTo r\<close>; the constant \<open>TREASURY_ADDRESS\<close> plays no
  part. Every row that a run adds to the table is the row of such a log.
\<close>

theorem treasury_field_is_decoded_recipient:
  "(decode_log l e lg = Inr (Some (tok, v, r)) \<longrightarrow>
      2 < length (topics lg)
      \<and> getAddress l (''0x'' @ slice_last 40 (topics lg ! 2)) = Inr (treasury r)
      \<and> treasury r = transferTo r)
   \<and> (indexRange l e db fromBlk toBlk = Some st \<longrightarrow>
      (\<forall>r' \<in> set (treasuryTransfer st). r' \<in> set db \<or>
         (\<exists>lg' :: Log. txHash r' = transactionHash lg' \<and> logIndex r' = index lg'
            \<and> 2 < length (topics lg')
            \<and> getAddress l (''0x'' @ slice_last 40 (topics lg' ! 2)) = Inr (treasury r')
            \<and> treasury r' = transferTo r')))"
proof -
  have one: "2 < length (topics lg)
      \<and> getAddress l (''0x'' @ slice_last 40 (topics lg ! 2)) = Inr (treasury r)
      \<and> treasury r = transferTo r
      \<and> txHash r = transactionHash lg \<and> logIndex r = index lg"
    if d: "decode_log l e lg = Inr (Some (tok, v, r))" for lg tok v r
  proof -
    note t = decode_log_fieldsD(2) [OF d]
    note eq = decode_log_fieldsD(6) [OF d] decode_log_fieldsD(7) [OF d]
      decode_log_fieldsD(8) [OF d]
    from t have "2 < length (topics lg)"
      by (auto simp: topicToAddress_def topic_at_def split: if_splits option.splits)
    with t eq show ?thesis by (simp add: topicToAddress_def topic_at_def)
  qed
  show ?thesis
  proof (intro conjI impI ballI)
    assume "decode_log l e lg = Inr (Some (tok, v, r))"
    from one [OF this] show "2 < length (topics lg)"
      "getAddress l (''0x'' @ slice_last 40 (topics lg ! 2)) = Inr (treasury r)"
      "treasury r = transferTo r" by blast+
  next
    fix r'
    assume run: "indexRange l e db fromBlk toBlk = Some st"
      and r': "r' \<in> set (treasuryTransfer st)"
    show "r' \<in> set db \<or>
         (\<exists>lg' :: Log. txHash r' = transactionHash lg' \<and> logIndex r' = index lg'
            \<and> 2 < length (topics lg')
            \<and> getAddress l (''0x'' @ slice_last 40 (topics lg' ! 2)) = Inr (treasury r')
            \<and> treasury r' = transferTo r')"
    proof (cases "r' \<in> set db")
      case True
      then show ?thesis by simp
    next
      case False
      with indexRange_built [OF run r'] obtain lg' tok' v' where
        "decode_log l e lg' = Inr (Some (tok', v', r'))" by blast
      from one [OF this] show ?thesis by blast
    qed
  qed
qed

theorem treasury_field_is_decoded_recipient_witness:
  "indexRange lib0 env_loose [] 100 100 =
     Some \<lparr>treasuryTransfer = [row_elsewhere],
            totalWeiByToken = [(''AXS'', 1000000000000000000)], totalRecords = 1\<rparr>
   \<and> decode_log lib0 env_loose log_elsewhere =
     Inr (Some (TOKENS ! 0, 1000000000000000000, row_elsewhere))
   \<and> getAddress lib0 (''0x'' @ slice_last 40 (topics log_elsewhere ! 2)) = Inr addr_Z
   \<and> treasury row_elsewhere = addr_Z
   \<and> toLowerCase (treasury row_elsewhere) \<noteq> TREASURY_ADDRESS"
proof -
  note d = decode_log_elsewhere [OF env_loose_eval(1)]
  from treasury_field_is_decoded_recipient
    [of lib0 env_loose log_elsewhere "TOKENS ! 0" 1000000000000000000 row_elsewhere,
      THEN conjunct1, rule_format, OF d]
  have "getAddress lib0 (''0x'' @ slice_last 40 (topics log_elsewhere ! 2)) =
    Inr (treasury row_elsewhere)" by blast
  moreover have "treasury row_elsewhere = addr_Z" by (simp add: row_elsewhere_def)
  moreover have "toLowerCase addr_Z \<noteq> TREASURY_ADDRESS"
    by (simp add: toLowerCase_addrs TREASURY_ADDRESS_eval)
  ultimately show ?thesis using d run_loose_100 by simp
qed

subsection \<open>Claims about skipped logs and the write\<close>

lemma map_of_foldl_update:
  "(map_of (foldl (\<lambda>m (k, v). AList.update k v m) m0 es) k = None) =
   (map_of m0 k = None \<and> k \<notin> fst ` set es)"
  by (induction es arbitrary: m0) (auto simp: update_conv' split: prod.splits)

lemma tokenAddrMap_None:
  "(map_of tokenAddrMap k = None) = (\<forall>t \<in> set TOKENS. toLowerCase (token_address t) \<noteq> k)"
  by (force simp: tokenAddrMap_def new_Map_def map_of_foldl_update image_iff)

text \<open>
  Claim C9. A log whose contract address, in lower case, is not the lower-case address
  of a tracked token makes no event (\<open>decode_log\<close> is at \<^verbatim>\<open>continue\<close>), leaves the table,
  the totals and the count as they are, raises nothing, and the loop goes on with the
  next log.
\<close>

theorem untracked_token_skipped:
  assumes "\<forall>t \<in> set TOKENS. toLowerCase (token_address t) \<noteq> toLowerCase (address lg)"
  shows "decode_log l e lg = Inr None
    \<and> process_log l e st lg = (None, st)
    \<and> process_logs l e st (lg # logs) = process_logs l e st logs"
proof -
  from assms have "map_of tokenAddrMap (toLowerCase (address lg)) = None"
    by (simp only: tokenAddrMap_None)
  then have d: "decode_log l e lg = Inr None" by (simp add: decode_log_def)
  with process_log_None [OF d, of st] show ?thesis by simp
qed

theorem untracked_token_skipped_witness:
  "toLowerCase (address (log_proxy\<lparr>address := addr_Z\<rparr>)) =
     ''0xdbf03b407c01e7cd3cbea99509d93f8dddc8c6fb''
   \<and> map (\<lambda>t. toLowerCase (token_address t)) TOKENS =
     [''0x97a9107c1793bc407d6f527b77e7fff4d812bece'',
      ''0xc99a6a985ed2cac1ef41640596c5a5f9f4e19ef5'']
   \<and> process_log lib0 env0
       \<lparr>treasuryTransfer = [row_direct], totalWeiByToken = [(''WETH'', 1)], totalRecords = 1\<rparr>
       (log_proxy\<lparr>address := addr_Z\<rparr>) =
     (None,
      \<lparr>treasuryTransfer = [row_direct], totalWeiByToken = [(''WETH'', 1)], totalRecords = 1\<rparr>)"
proof -
  have a: "toLowerCase (address (log_proxy\<lparr>address := addr_Z\<rparr>)) =
     ''0xdbf03b407c01e7cd3cbea99509d93f8dddc8c6fb''"
    by (simp add: toLowerCase_addrs)
  have t: "map (\<lambda>t. toLowerCase (token_address t)) TOKENS =
     [''0x97a9107c1793bc407d6f527b77e7fff4d812bece'',
      ''0xc99a6a985ed2cac1ef41640596c5a5f9f4e19ef5'']"
    by (simp add: TOKENS_def char_eval)
  have "\<forall>x \<in> set (map (\<lambda>t. toLowerCase (token_address t)) TOKENS).
      x \<noteq> toLowerCase (address (log_proxy\<lparr>address := addr_Z\<rparr>))"
    unfolding a t by simp
  then have "\<forall>t \<in> set TOKENS. toLowerCase (token_address t) \<noteq>
      toLowerCase (address (log_proxy\<lparr>address := addr_Z\<rparr>))" by simp
  from untracked_token_skipped [OF this] a t show ?thesis by simp
qed

text \<open>
  Claim C8. For a log of a tracked token whose two topics and amount decode, and whose
  transaction the provider does not find (\<^verbatim>\<open>null\<close>): the event is skipped at the
  \<^verbatim>\<open>continue\<close>, so the table, the totals and the count are unchanged, nothing is raised,
  and the loop goes on with the next log.
\<close>

theorem missing_transaction_skipped:
  assumes "map_of tokenAddrMap (toLowerCase (address lg)) = Some tok"
    and "topicToAddress l (topic_at lg 1) = Inr a"
    and "topicToAddress l (topic_at lg 2) = Inr b"
    and "BigInt l (data lg) = Inr v"
    and "getTransaction e (transactionHash lg) = Inr None"
  shows "decode_log l e lg = Inr None
    \<and> process_log l e st lg = (None, st)
    \<and> process_logs l e st (lg # logs) = process_logs l e st logs"
proof -
  have d: "decode_log l e lg = Inr None"
    unfolding decode_log_def by (simp only: assms option.case sum.case)
  with process_log_None [OF d, of st] show ?thesis by simp
qed

theorem missing_transaction_skipped_witness:
  "getTransaction env0 (transactionHash (log_proxy\<lparr>transactionHash := ''0x00''\<rparr>)) = Inr None
   \<and> topicToAddress lib0 (topic_at (log_proxy\<lparr>transactionHash := ''0x00''\<rparr>) 1) = Inr addr_proxy
   \<and> BigInt lib0 (data (log_proxy\<lparr>transactionHash := ''0x00''\<rparr>)) = Inr 1000000000000000000
   \<and> process_log lib0 env0
       \<lparr>treasuryTransfer = [row_direct], totalWeiByToken = [(''WETH'', 1)], totalRecords = 1\<rparr>
       (log_proxy\<lparr>transactionHash := ''0x00''\<rparr>) =
     (None,
      \<lparr>treasuryTransfer = [row_direct], totalWeiByToken = [(''WETH'', 1)], totalRecords = 1\<rparr>)"
proof -
  define lg where "lg = log_proxy\<lparr>transactionHash := ''0x00''\<rparr>"
  have tok: "map_of tokenAddrMap (toLowerCase (address lg)) = Some (TOKENS ! 0)"
    by (simp add: lg_def tokenAddrMap_eval log_proxy_def char_eval)
  have tp: "topic_at lg 1 = topic_at log_proxy 1" "topic_at lg 2 = topic_at log_proxy 2"
    by (simp_all add: lg_def topic_at_def)
  have t1: "topicToAddress lib0 (topic_at lg 1) = Inr addr_proxy"
    by (simp only: tp topic_at_eval topics_eval)
  have t2: "topicToAddress lib0 (topic_at lg 2) = Inr addr_treasury"
    by (simp only: tp topic_at_eval topics_eval)
  have v: "BigInt lib0 (data lg) = Inr 1000000000000000000"
    by (simp add: lg_def lib0_def log_proxy_def BigInt0_eval)
  have tx: "getTransaction env0 (transactionHash lg) = Inr None"
    by (simp add: lg_def env0_def getTransaction0_def hash_a_def hash_b_def hash_c_def)
  from missing_transaction_skipped [OF tok t1 t2 v tx] t1 v tx show ?thesis
    unfolding lg_def by simp
qed

text \<open>
  Claim C6 says that on a key conflict the write reports \<open>inserted = false\<close>. The source
  discards what \<^verbatim>\<open>upsert\<close> returns, and \<^verbatim>\<open>totalRecords += 1\<close> follows the call after a
  conflict as after an insert. Here the row of \<open>log_direct\<close> is stored already (second
  conjunct) or not (third): in both cases nothing is raised and the count goes from 0
  to 1.
\<close>

theorem write_report_counterexample:
  "row_key row_direct = (transactionHash log_direct, index log_direct)
   \<and> process_log lib0 env0
       \<lparr>treasuryTransfer = [row_direct], totalWeiByToken = [], totalRecords = 0\<rparr> log_direct =
     (None, \<lparr>treasuryTransfer = [row_direct],
             totalWeiByToken = [(''WETH'', 500000000000000000)], totalRecords = 1\<rparr>)
   \<and> process_log lib0 env0
       \<lparr>treasuryTransfer = [], totalWeiByToken = [], totalRecords = 0\<rparr> log_direct =
     (None, \<lparr>treasuryTransfer = [row_direct],
             totalWeiByToken = [(''WETH'', 500000000000000000)], totalRecords = 1\<rparr>)"
proof -
  note p = process_log_Some [OF decode_log_direct [OF env0_eval(1)]]
  have "row_key row_direct = (transactionHash log_direct, index log_direct)"
    by (simp add: row_keys_eval log_direct_def)
  moreover have "process_log lib0 env0
       \<lparr>treasuryTransfer = [row_direct], totalWeiByToken = [], totalRecords = 0\<rparr> log_direct =
     (None, \<lparr>treasuryTransfer = [row_direct],
             totalWeiByToken = [(''WETH'', 500000000000000000)], totalRecords = 1\<rparr>)"
    by (simp add: p env0_eval symbols_eval js_small)
  moreover have "process_log lib0 env0
       \<lparr>treasuryTransfer = [], totalWeiByToken = [], totalRecords = 0\<rparr> log_direct =
     (None, \<lparr>treasuryTransfer = [row_direct],
             totalWeiByToken = [(''WETH'', 500000000000000000)], totalRecords = 1\<rparr>)"
    by (simp add: p env0_eval symbols_eval js_small)
  ultimately show ?thesis by (simp only: simp_thms)
qed

text \<open>
  Claim C6 as amended. The write is keyed by \<open>(txHash, logIndex)\<close>: the key it looks up
  is the key of the row \<open>r\<close> it would create. When a row with that key is stored, the
  loop body leaves the table as it is and raises nothing; it does not report
  \<open>inserted = false\<close>: unless the database rejects the call, the count is increased by
  one, as it is when the key is new and \<open>r\<close> is appended. Over a whole run the table
  before the run is a prefix of the table after it: no stored row is changed, moved or
  removed.
\<close>

theorem stored_rows_never_change:
  "(decode_log l e lg = Inr (Some (tok, v, r)) \<longrightarrow>
      row_key r = (transactionHash lg, index lg))
   \<and> (decode_log l e lg = Inr (Some (tok, v, r)) \<and>
      row_key r \<in> set (map row_key (treasuryTransfer st)) \<longrightarrow>
      fst (process_log l e st lg) = None
      \<and> treasuryTransfer (snd (process_log l e st lg)) = treasuryTransfer st
      \<and> totalRecords (snd (process_log l e st lg)) =
        (if upsertFails e r then totalRecords st else js_add (totalRecords st) 1))
   \<and> (decode_log l e lg = Inr (Some (tok, v, r)) \<and>
      row_key r \<notin> set (map row_key (treasuryTransfer st)) \<and> \<not> upsertFails e r \<longrightarrow>
      fst (process_log l e st lg) = None
      \<and> treasuryTransfer (snd (process_log l e st lg)) = treasuryTransfer st @ [r]
      \<and> totalRecords (snd (process_log l e st lg)) = js_add (totalRecords st) 1)
   \<and> (indexRange l e db fromBlk toBlk = Some st' \<longrightarrow>
      (\<exists>new. treasuryTransfer st' = db @ new))"
proof (intro conjI impI)
  assume "decode_log l e lg = Inr (Some (tok, v, r))"
  then show "row_key r = (transactionHash lg, index lg)" by (rule decode_log_key)
next
  assume a: "decode_log l e lg = Inr (Some (tok, v, r)) \<and>
      row_key r \<in> set (map row_key (treasuryTransfer st))"
  then have d: "decode_log l e lg = Inr (Some (tok, v, r))" by simp
  from a process_log_Some [OF d, of st]
  show "fst (process_log l e st lg) = None"
    and "treasuryTransfer (snd (process_log l e st lg)) = treasuryTransfer st"
    and "totalRecords (snd (process_log l e st lg)) =
        (if upsertFails e r then totalRecords st else js_add (totalRecords st) 1)"
    by simp_all
next
  assume a: "decode_log l e lg = Inr (Some (tok, v, r)) \<and>
      row_key r \<notin> set (map row_key (treasuryTransfer st)) \<and> \<not> upsertFails e r"
  then have d: "decode_log l e lg = Inr (Some (tok, v, r))" by simp
  from a process_log_Some [OF d, of st]
  show "fst (process_log l e st lg) = None"
    and "treasuryTransfer (snd (process_log l e st lg)) = treasuryTransfer st @ [r]"
    and "totalRecords (snd (process_log l e st lg)) = js_add (totalRecords st) 1"
    by simp_all
next
  assume "indexRange l e db fromBlk toBlk = Some st'"
  from indexRange_appends [OF this] show "\<exists>new. treasuryTransfer st' = db @ new" by blast
qed

theorem stored_rows_never_change_witness:
  "decode_log lib0 env0 log_proxy = Inr (Some (TOKENS ! 0, 1000000000000000000, row_proxy))
   \<and> row_key row_proxy = row_key (row_proxy\<lparr>contributor := addr_Y, amountRaw := ''7''\<rparr>)
   \<and> process_log lib0 env0
       \<lparr>treasuryTransfer = [row_proxy\<lparr>contributor := addr_Y, amountRaw := ''7''\<rparr>],
        totalWeiByToken = [], totalRecords = 0\<rparr> log_proxy =
     (None,
      \<lparr>treasuryTransfer = [row_proxy\<lparr>contributor := addr_Y, amountRaw := ''7''\<rparr>],
       totalWeiByToken = [(''AXS'', 1000000000000000000)], totalRecords = 1\<rparr>)
   \<and> process_log lib0 env0
       \<lparr>treasuryTransfer = [], totalWeiByToken = [], totalRecords = 0\<rparr> log_proxy =
     (None,
      \<lparr>treasuryTransfer = [row_proxy],
       totalWeiByToken = [(''AXS'', 1000000000000000000)], totalRecords = 1\<rparr>)
   \<and> indexRange lib0 env0 [row_proxy\<lparr>contributor := addr_Y, amountRaw := ''7''\<rparr>] 0 799 =
     Some \<lparr>treasuryTransfer = [row_proxy\<lparr>contributor := addr_Y, amountRaw := ''7''\<rparr>, row_direct],
            totalWeiByToken = [(''AXS'', 1000000000000000000), (''WETH'', 500000000000000000)],
            totalRecords = 2\<rparr>"
proof -
  define c where "c = row_proxy\<lparr>contributor := addr_Y, amountRaw := ''7''\<rparr>"
  define st where "st = \<lparr>treasuryTransfer = [c], totalWeiByToken = [], totalRecords = 0\<rparr>"
  note d = decode_log_proxy [OF env0_eval(1)]
  have k: "row_key row_proxy = row_key c" by (simp add: c_def row_key_def)
  then have m: "row_key row_proxy \<in> set (map row_key (treasuryTransfer st))"
    by (simp add: st_def)
  from stored_rows_never_change [of lib0 env0 log_proxy "TOKENS ! 0" 1000000000000000000
      row_proxy st, THEN conjunct2, THEN conjunct1] d m
  have 1: "fst (process_log lib0 env0 st log_proxy) = None"
    and 2: "treasuryTransfer (snd (process_log lib0 env0 st log_proxy)) = [c]"
    and 3: "totalRecords (snd (process_log lib0 env0 st log_proxy)) = 1"
    by (simp_all add: st_def env0_eval js_small)
  from process_log_Some [OF d, of st]
  have 4: "totalWeiByToken (snd (process_log lib0 env0 st log_proxy)) =
      [(''AXS'', 1000000000000000000)]"
    by (simp add: st_def symbols_eval)
  from 1 2 3 4 have p: "process_log lib0 env0 st log_proxy =
      (None, \<lparr>treasuryTransfer = [c],
              totalWeiByToken = [(''AXS'', 1000000000000000000)], totalRecords = 1\<rparr>)"
    by (cases "process_log lib0 env0 st log_proxy") auto
  define st0 where "st0 = \<lparr>treasuryTransfer = [], totalWeiByToken = [], totalRecords = 0\<rparr>"
  have m0: "row_key row_proxy \<notin> set (map row_key (treasuryTransfer st0))
      \<and> \<not> upsertFails env0 row_proxy"
    by (simp add: st0_def env0_eval)
  from stored_rows_never_change [of lib0 env0 log_proxy "TOKENS ! 0" 1000000000000000000
      row_proxy st0, THEN conjunct2, THEN conjunct2, THEN conjunct1] d m0
  have 5: "fst (process_log lib0 env0 st0 log_proxy) = None"
    and 6: "treasuryTransfer (snd (process_log lib0 env0 st0 log_proxy)) = [row_proxy]"
    and 7: "totalRecords (snd (process_log lib0 env0 st0 log_proxy)) = 1"
    by (simp_all add: st0_def js_small)
  from process_log_Some [OF d, of st0]
  have 8: "totalWeiByToken (snd (process_log lib0 env0 st0 log_proxy)) =
      [(''AXS'', 1000000000000000000)]"
    by (simp add: st0_def symbols_eval)
  from 5 6 7 8 have p0: "process_log lib0 env0 st0 log_proxy =
      (None, \<lparr>treasuryTransfer = [row_proxy],
              totalWeiByToken = [(''AXS'', 1000000000000000000)], totalRecords = 1\<rparr>)"
    by (cases "process_log lib0 env0 st0 log_proxy") auto
  have "indexRange lib0 env0 [c] 0 799 =
     Some \<lparr>treasuryTransfer = [c, row_direct],
            totalWeiByToken = [(''AXS'', 1000000000000000000), (''WETH'', 500000000000000000)],
            totalRecords = 2\<rparr>"
    by (simp add: indexRange_def ranges_eval chunks_eval run_batch_def env0_eval
      process_log_Some [OF decode_log_direct [OF env0_eval(1)]]
      process_log_Some [OF decode_log_proxy [OF env0_eval(1)]]
      symbols_eval js_small row_keys_eval hashes_differ k [symmetric])
  with d k p p0 show ?thesis unfolding c_def st_def st0_def by simp
qed

subsection \<open>The run returns\<close>

text \<open>
  \<^verbatim>\<open>indexRange\<close> returns for every range of safe integers, every library, provider and
  database: both planning loops end (the span is 400 and the group size 2), and
  whatever is thrown while a group is fetched and processed is caught at the end of its
  turn.
\<close>

theorem indexRange_total:
  assumes "- (2 ^ 53) < fromBlk" and "toBlk < 2 ^ 53"
  shows "\<exists>st. indexRange l e db fromBlk toBlk = Some st"
  using assms by (rule indexRange_returns)

theorem indexRange_total_witness:
  "- (2 ^ 53) < (16377000::int) \<and> (50532500::int) < 2 ^ 53
   \<and> (\<exists>st. indexRange lib0 env0 [] 16377000 50532500 = Some st)"
proof -
  have h: "- (2 ^ 53) < (16377000::int)" "(50532500::int) < 2 ^ 53" by simp_all
  from indexRange_total [OF h] h show ?thesis by blast
qed

text \<open>
  \<^verbatim>\<open>chunkArray\<close> with a positive size returns; its chunks, put together in order, are the
  array; no chunk is empty and none is longer than the size.
\<close>

theorem chunkArray_partitions:
  assumes "0 < sz"
  shows "\<exists>cs. chunkArray arr sz = Some cs \<and> concat cs = arr \<and>
    (\<forall>c \<in> set cs. c \<noteq> [] \<and> length c \<le> sz)"
proof -
  have len: "\<exists>cs. chunkArray_loop arr sz i acc = Some (acc @ cs) \<and> (\<forall>c \<in> set cs. length c \<le> sz)"
    for i acc
  proof (induction "length arr - i" arbitrary: i acc rule: less_induct)
    case less
    show ?case
    proof (cases "i < length arr")
      case False
      then have "chunkArray_loop arr sz i acc = Some (acc @ [])"
        by (simp add: chunkArray_loop.simps)
      then show ?thesis by force
    next
      case True
      define c where "c = take sz (drop i arr)"
      from assms True have "length arr - (i + sz) < length arr - i" by simp
      from less [OF this, of "acc @ [c]"] obtain cs where
        cs: "chunkArray_loop arr sz (i + sz) (acc @ [c]) = Some ((acc @ [c]) @ cs)"
        "\<forall>c \<in> set cs. length c \<le> sz" by blast
      from True have "chunkArray_loop arr sz i acc = chunkArray_loop arr sz (i + sz) (acc @ [c])"
        by (subst chunkArray_loop.simps) (simp add: c_def)
      with cs have "chunkArray_loop arr sz i acc = Some (acc @ (c # cs))" by simp
      moreover from cs(2) have "\<forall>c' \<in> set (c # cs). length c' \<le> sz" by (simp add: c_def)
      ultimately show ?thesis by blast
    qed
  qed
  from chunkArray_returns [OF assms, of arr] obtain cs where
    cs: "chunkArray arr sz = Some cs" "concat cs = arr" "[] \<notin> set cs" by blast
  from len [of 0 "[]"] cs(1) have "\<forall>c \<in> set cs. length c \<le> sz"
    by (simp add: chunkArray_def)
  with cs show ?thesis by blast
qed

theorem chunkArray_partitions_witness:
  "(0::nat) < 2 \<and> chunkArray [1, 2, 3, 4, 5 :: int] 2 = Some [[1, 2], [3, 4], [5]]"
proof -
  have "chunkArray [1, 2, 3, 4, 5 :: int] 2 = Some [[1, 2], [3, 4], [5]]"
    by (simp add: chunkArray_def chunkArray_loop.simps)
  with chunkArray_partitions [of 2 "[1, 2, 3, 4, 5 :: int]"] show ?thesis by simp
qed

end
